theory Spec2Isabelle
  imports Main "HOL-Library.Word"
begin

unbundle bit_operations_syntax

section \<open>Shared definitions (ufs\_defs.h)\<close>

text \<open>
  The status word \<open>ufsErrno\<close> is an \<open>int64_t\<close>. Only the constants below are ever
  assigned to it, so it is modelled as an \<open>int\<close>. The header defines
  \<open>UFS_UNKNOWN_ERROR\<close> and \<open>UFS_IMAGE_TOO_SMALL\<close> with the same value, and so does
  the model.
\<close>

type_synonym ufsStatusType = int

definition UFS_INDEX_VERSION :: "32 word" where "UFS_INDEX_VERSION = 1"
definition UFS_MAGIC_NUMBER :: "32 word" where "UFS_MAGIC_NUMBER = 0x00736675"

definition UFS_NO_ERROR :: ufsStatusType where "UFS_NO_ERROR = 0"
definition UFS_IMAGE_DOES_NOT_EXIST :: ufsStatusType where "UFS_IMAGE_DOES_NOT_EXIST = -1"
definition UFS_IMAGE_IS_CORRUPTED :: ufsStatusType where "UFS_IMAGE_IS_CORRUPTED = -2"
definition UFS_VERSION_MISMATCH :: ufsStatusType where "UFS_VERSION_MISMATCH = -3"
definition UFS_BAD_CALL :: ufsStatusType where "UFS_BAD_CALL = -4"
definition UFS_CANT_CREATE_FILE :: ufsStatusType where "UFS_CANT_CREATE_FILE = -11"
definition UFS_UNKNOWN_ERROR :: ufsStatusType where "UFS_UNKNOWN_ERROR = -12"
definition UFS_IMAGE_TOO_SMALL :: ufsStatusType where "UFS_IMAGE_TOO_SMALL = -12"
definition UFS_IMAGE_COULD_NOT_SYNC :: ufsStatusType where "UFS_IMAGE_COULD_NOT_SYNC = -13"

text \<open>\<open>enum ufsTyepesEnum\<close>: the index of each table in \<open>sizes[]\<close> and \<open>offsets[]\<close>.\<close>

definition UFS_TYPES_FILE :: nat where "UFS_TYPES_FILE = 0"
definition UFS_TYPES_AREA :: nat where "UFS_TYPES_AREA = 1"
definition UFS_TYPES_NODE :: nat where "UFS_TYPES_NODE = 2"
definition UFS_TYPES_STRING :: nat where "UFS_TYPES_STRING = 3"
definition UFS_TYPES_COUNT :: nat where "UFS_TYPES_COUNT = 4"


section \<open>Structure layout (ufs\_header.h)\<close>

text \<open>
  \<open>sizeof\<close> and \<open>_Alignof\<close> are fixed by the compiler from the structure
  declarations. They are computed here by the layout rule of the LP64 ABI the code is built
  for (gcc on Linux): each member is placed at the next multiple of its alignment, and the
  size is padded to a multiple of the largest member alignment. A member is given as its
  (size, alignment).
\<close>

definition align_up :: "nat \<Rightarrow> nat \<Rightarrow> nat" where
  "align_up n a = ((n + (a - 1)) div a) * a"

fun member_offsets :: "nat \<Rightarrow> (nat \<times> nat) list \<Rightarrow> nat list" where
  "member_offsets off [] = []"
| "member_offsets off ((s, a) # ms) = align_up off a # member_offsets (align_up off a + s) ms"

fun members_end :: "nat \<Rightarrow> (nat \<times> nat) list \<Rightarrow> nat" where
  "members_end off [] = off"
| "members_end off ((s, a) # ms) = members_end (align_up off a + s) ms"

fun alignof_struct :: "(nat \<times> nat) list \<Rightarrow> nat" where
  "alignof_struct [] = 1"
| "alignof_struct ((s, a) # ms) = max a (alignof_struct ms)"

definition sizeof_struct :: "(nat \<times> nat) list \<Rightarrow> nat" where
  "sizeof_struct ms = align_up (members_end 0 ms) (alignof_struct ms)"

text \<open>\<open>struct ufsFileStruct { uint8_t isOwend; uint64_t strOffset; }\<close>\<close>

definition ufsFileStruct :: "(nat \<times> nat) list" where
  "ufsFileStruct = [(1, 1), (8, 8)]"

text \<open>\<open>struct ufsAreaStruct { uint8_t isOwend; uint64_t strOffset; }\<close>\<close>

definition ufsAreaStruct :: "(nat \<times> nat) list" where
  "ufsAreaStruct = [(1, 1), (8, 8)]"

text \<open>\<open>struct ufsNodeStruct { uint8_t isOwend; ufsIdType left, right; ufsIdType key[2];
  uint8_t numKeys; }\<close>\<close>

definition ufsNodeStruct :: "(nat \<times> nat) list" where
  "ufsNodeStruct = [(1, 1), (8, 8), (8, 8), (16, 8), (1, 1)]"

text \<open>\<open>struct ufsHeaderStruct { uint32_t magicNumber; uint32_t version;
  uint64_t sizes[UFS_TYPES_COUNT], offsets[UFS_TYPES_COUNT]; }\<close>\<close>

definition ufsHeaderStruct :: "(nat \<times> nat) list" where
  "ufsHeaderStruct = [(4, 4), (4, 4), (8 * UFS_TYPES_COUNT, 8), (8 * UFS_TYPES_COUNT, 8)]"

definition off_magicNumber :: nat where "off_magicNumber = member_offsets 0 ufsHeaderStruct ! 0"
definition off_version :: nat where "off_version = member_offsets 0 ufsHeaderStruct ! 1"
definition off_sizes :: nat where "off_sizes = member_offsets 0 ufsHeaderStruct ! 2"
definition off_offsets :: nat where "off_offsets = member_offsets 0 ufsHeaderStruct ! 3"

text \<open>\<open>struct ufsHeaderSizeRequestStruct\<close>\<close>

record ufsHeaderSizeRequestStruct =
  numFiles :: "64 word"
  numAreas :: "64 word"
  numNodes :: "64 word"
  numStrBytes :: "64 word"

text \<open>\<open>ufsDefaultSizeRequest\<close> (ufs\_header.c)\<close>

definition ufsDefaultSizeRequest :: ufsHeaderSizeRequestStruct where
  "ufsDefaultSizeRequest =
     \<lparr>numFiles = 256, numAreas = 256, numNodes = 512, numStrBytes = 1024\<rparr>"


section \<open>Bytes, files and mappings\<close>

text \<open>
  Integers are stored in the image in the byte order of the host, which is little-endian
  on the platforms the code is built for.
\<close>

type_synonym byte = "8 word"

fun le_bytes :: "nat \<Rightarrow> nat \<Rightarrow> byte list" where
  "le_bytes 0 v = []"
| "le_bytes (Suc n) v = of_nat (v mod 256) # le_bytes n (v div 256)"

fun le_val :: "byte list \<Rightarrow> nat" where
  "le_val [] = 0"
| "le_val (b # bs) = unat b + 256 * le_val bs"

definition sub_bytes :: "nat \<Rightarrow> nat \<Rightarrow> byte list \<Rightarrow> byte list" where
  "sub_bytes off k bs = take k (drop off bs)"

definition upd_bytes :: "nat \<Rightarrow> byte list \<Rightarrow> byte list \<Rightarrow> byte list" where
  "upd_bytes off v bs = take off bs @ v @ drop (off + length v) bs"

text \<open>
  The outcomes that are not a return of the C function: a dereference of the null pointer,
  an access outside the mapped bytes of the file, and an \<open>munmap\<close> whose length is not
  the length of the mapping (which this model does not follow further).
\<close>

datatype fault = NullDeref | BadAccess | UnmapMismatch

definition bindf :: "fault + 'a \<Rightarrow> ('a \<Rightarrow> fault + 'b) \<Rightarrow> fault + 'b" where
  "bindf m f = (case m of Inl e \<Rightarrow> Inl e | Inr x \<Rightarrow> f x)"

text \<open>
  \<open>ufsImagePtr\<close> is a \<open>void *\<close>: null, or the address \<open>mmap\<close> returned. The model
  numbers the mappings in the order they are made; a mapping records the file it maps and
  the length that was mapped. The mappings are \<open>MAP_SHARED\<close>: a write through the
  pointer is a write to the bytes of the file, seen by every other mapping of it.
\<close>

datatype ufsImagePtr = NULL | Ptr nat

datatype errno_t = EACCES | EOTHER

datatype syscall =
    SysAccess string
  | SysOpen string
  | SysFstat string
  | SysFtruncate string nat
  | SysMmap string nat
  | SysMsync nat nat
  | SysMunmap nat nat
  | SysClose string
  | SysSysconf
  | SysPerror string

record world =
  files :: "string \<rightharpoonup> byte list"
  mappings :: "(string \<times> nat) option list"
  ufsErrno :: ufsStatusType
  syscalls :: "syscall list"

text \<open>
  What the operating system answers is not in the source: it is a parameter of every
  operation. \<open>open_errno\<close> is the \<open>errno\<close> of a failing \<open>open\<close>, the flags say
  whether \<open>fstat\<close>, \<open>ftruncate\<close>, \<open>mmap\<close> and \<open>msync\<close> fail, and \<open>pageSize\<close>
  is the value of \<open>sysconf(_SC_PAGESIZE)\<close> as stored in the \<open>uint64_t\<close>.
\<close>

record sysenv =
  pageSize :: "64 word"
  open_errno :: "errno_t option"
  fstat_fails :: bool
  ftruncate_fails :: bool
  mmap_fails :: bool
  msync_fails :: bool

definition emit :: "syscall \<Rightarrow> world \<Rightarrow> world" where
  "emit c w = w\<lparr>syscalls := syscalls w @ [c]\<rparr>"

text \<open>
  The file behind a pointer: its path, the length that was mapped and its bytes as they
  are now. An access is inside the mapping and inside the file, or it is a fault.
\<close>

definition img_file :: "world \<Rightarrow> ufsImagePtr \<Rightarrow> fault + (string \<times> nat \<times> byte list)" where
  "img_file w img =
     (case img of
        NULL \<Rightarrow> Inl NullDeref
      | Ptr a \<Rightarrow>
          if a < length (mappings w) then
            (case mappings w ! a of
               None \<Rightarrow> Inl BadAccess
             | Some (p, n) \<Rightarrow>
                 (case files w p of
                    None \<Rightarrow> Inl BadAccess
                  | Some bs \<Rightarrow> Inr (p, n, bs)))
          else Inl BadAccess)"

definition load :: "world \<Rightarrow> ufsImagePtr \<Rightarrow> nat \<Rightarrow> nat \<Rightarrow> fault + byte list" where
  "load w img off k =
     bindf (img_file w img) (\<lambda>(p, n, bs).
       if off + k \<le> min n (length bs) then Inr (sub_bytes off k bs) else Inl BadAccess)"

definition store :: "ufsImagePtr \<Rightarrow> nat \<Rightarrow> byte list \<Rightarrow> world \<Rightarrow> fault + world" where
  "store img off v w =
     bindf (img_file w img) (\<lambda>(p, n, bs).
       if off + length v \<le> min n (length bs)
       then Inr (w\<lparr>files := (files w)(p \<mapsto> upd_bytes off v bs)\<rparr>)
       else Inl BadAccess)"

definition load_u32 :: "world \<Rightarrow> ufsImagePtr \<Rightarrow> nat \<Rightarrow> fault + 32 word" where
  "load_u32 w img off = bindf (load w img off 4) (\<lambda>bs. Inr (of_nat (le_val bs)))"

definition load_u64 :: "world \<Rightarrow> ufsImagePtr \<Rightarrow> nat \<Rightarrow> fault + 64 word" where
  "load_u64 w img off = bindf (load w img off 8) (\<lambda>bs. Inr (of_nat (le_val bs)))"

definition store_u32 :: "ufsImagePtr \<Rightarrow> nat \<Rightarrow> 32 word \<Rightarrow> world \<Rightarrow> fault + world" where
  "store_u32 img off v w = store img off (le_bytes 4 (unat v)) w"

definition store_u64 :: "ufsImagePtr \<Rightarrow> nat \<Rightarrow> 64 word \<Rightarrow> world \<Rightarrow> fault + world" where
  "store_u64 img off v w = store img off (le_bytes 8 (unat v)) w"

section \<open>The image layer (ufs\_image.c)\<close>

text \<open>
  The system calls, as far as the code depends on them. \<open>access(path, F_OK)\<close> answers
  whether the path names a file. A file descriptor is modelled by the path it was opened on.
  \<open>open\<close> with \<open>O_CREAT\<close> makes an empty file where there is none and leaves an
  existing one as it is. \<open>ftruncate\<close> cuts the file or extends it with zero bytes.
  \<open>mmap\<close> appends the new mapping; its address is its position.
\<close>

definition sys_access :: "world \<Rightarrow> string \<Rightarrow> bool" where
  "sys_access w p = (files w p \<noteq> None)"

definition sys_creat :: "string \<Rightarrow> world \<Rightarrow> world" where
  "sys_creat p w = (if files w p = None then w\<lparr>files := (files w)(p \<mapsto> [])\<rparr> else w)"

definition resize :: "nat \<Rightarrow> byte list \<Rightarrow> byte list" where
  "resize n bs = take n bs @ replicate (n - length bs) 0"

definition sys_ftruncate :: "string \<Rightarrow> nat \<Rightarrow> world \<Rightarrow> world" where
  "sys_ftruncate p n w =
     (case files w p of
        None \<Rightarrow> w
      | Some bs \<Rightarrow> w\<lparr>files := (files w)(p \<mapsto> resize n bs)\<rparr>)"

definition sys_mmap :: "string \<Rightarrow> nat \<Rightarrow> world \<Rightarrow> ufsImagePtr \<times> world" where
  "sys_mmap p n w = (Ptr (length (mappings w)), w\<lparr>mappings := mappings w @ [Some (p, n)]\<rparr>)"

definition sys_munmap :: "ufsImagePtr \<Rightarrow> nat \<Rightarrow> world \<Rightarrow> fault + world" where
  "sys_munmap img n w =
     (case img of
        NULL \<Rightarrow> Inl NullDeref
      | Ptr a \<Rightarrow>
          if a < length (mappings w) then
            (case mappings w ! a of
               None \<Rightarrow> Inl BadAccess
             | Some (p, m) \<Rightarrow>
                 if m = n then Inr (w\<lparr>mappings := (mappings w)[a := None]\<rparr>)
                 else Inl UnmapMismatch)
          else Inl BadAccess)"

definition ptr_addr :: "ufsImagePtr \<Rightarrow> nat" where
  "ptr_addr img = (case img of NULL \<Rightarrow> 0 | Ptr a \<Rightarrow> a)"

definition ufsImageOpen ::
  "sysenv \<Rightarrow> string option \<Rightarrow> world \<Rightarrow> fault + (ufsImagePtr \<times> world)" where
  "ufsImageOpen env filePath w =
     (case filePath of
        None \<Rightarrow> Inr (NULL, w\<lparr>ufsErrno := UFS_BAD_CALL\<rparr>)
      | Some p \<Rightarrow>
          let w1 = emit (SysAccess p) w in
          (case files w1 p of
             None \<Rightarrow> Inr (NULL, w1\<lparr>ufsErrno := UFS_IMAGE_DOES_NOT_EXIST\<rparr>)
           | Some bs \<Rightarrow>
               let w2 = emit (SysOpen p) w1 in
               if open_errno env \<noteq> None then
                 Inr (NULL, emit (SysPerror ''open'') (w2\<lparr>ufsErrno := UFS_UNKNOWN_ERROR\<rparr>))
               else
                 let w3 = emit (SysFstat p) w2 in
                 if fstat_fails env then
                   Inr (NULL, emit (SysClose p) (emit (SysPerror ''fstat'')
                                (w3\<lparr>ufsErrno := UFS_UNKNOWN_ERROR\<rparr>)))
                 else
                   let st_size = length bs in
                   if st_size < 8 then
                     Inr (NULL, emit (SysClose p) (w3\<lparr>ufsErrno := UFS_IMAGE_TOO_SMALL\<rparr>))
                   else
                     let w4 = emit (SysMmap p st_size) w3 in
                     if mmap_fails env then
                       Inr (NULL, emit (SysClose p) (emit (SysPerror ''mmap'')
                                    (w4\<lparr>ufsErrno := UFS_UNKNOWN_ERROR\<rparr>)))
                     else
                       let (ret, w5) = sys_mmap p st_size w4 in
                       bindf (store_u64 ret 0 (of_nat st_size) w5) (\<lambda>w6.
                         Inr (ret, (emit (SysClose p) w6)\<lparr>ufsErrno := UFS_NO_ERROR\<rparr>))))"

definition ufsImageCreate ::
  "sysenv \<Rightarrow> string option \<Rightarrow> 64 word \<Rightarrow> world \<Rightarrow> fault + (ufsImagePtr \<times> world)" where
  "ufsImageCreate env filePath sz w =
     (case filePath of
        None \<Rightarrow> Inr (NULL, w\<lparr>ufsErrno := UFS_BAD_CALL\<rparr>)
      | Some p \<Rightarrow>
          if sz < 8 then Inr (NULL, w\<lparr>ufsErrno := UFS_BAD_CALL\<rparr>)
          else
            let w1 = emit (SysOpen p) w in
            (case open_errno env of
               Some e \<Rightarrow>
                 Inr (NULL, emit (SysPerror ''open'')
                        (w1\<lparr>ufsErrno := (if e = EACCES then UFS_CANT_CREATE_FILE
                                           else UFS_BAD_CALL)\<rparr>))
             | None \<Rightarrow>
                 let w2 = emit (SysFtruncate p (unat sz)) (sys_creat p w1) in
                 if ftruncate_fails env then
                   Inr (NULL, emit (SysClose p) (emit (SysPerror ''ftruncate'') w2))
                 else
                   let w3 = emit (SysMmap p (unat sz)) (sys_ftruncate p (unat sz) w2) in
                   if mmap_fails env then
                     Inr (NULL, emit (SysClose p) (emit (SysPerror ''mmap'')
                                  (w3\<lparr>ufsErrno := UFS_UNKNOWN_ERROR\<rparr>)))
                   else
                     let (ret, w4) = sys_mmap p (unat sz) w3 in
                     bindf (store_u64 ret 0 sz (emit (SysClose p) w4)) (\<lambda>w5.
                       Inr (ret, w5\<lparr>ufsErrno := UFS_NO_ERROR\<rparr>))))"

definition ufsImageSync :: "sysenv \<Rightarrow> ufsImagePtr \<Rightarrow> world \<Rightarrow> fault + (bool \<times> world)" where
  "ufsImageSync env img w =
     bindf (load_u64 w img 0) (\<lambda>sz.
       let w1 = emit (SysMsync (ptr_addr img) (unat sz)) w in
       if msync_fails env then
         Inr (False, (emit (SysPerror ''msync'') w1)\<lparr>ufsErrno := UFS_IMAGE_COULD_NOT_SYNC\<rparr>)
       else Inr (True, w1))"

definition ufsImageFree :: "ufsImagePtr \<Rightarrow> world \<Rightarrow> fault + world" where
  "ufsImageFree img w =
     bindf (load_u64 w img 0) (\<lambda>sz.
       sys_munmap img (unat sz) (emit (SysMunmap (ptr_addr img) (unat sz)) w))"


section \<open>The header layer (ufs\_header.c)\<close>

definition roundToBoundary :: "64 word \<Rightarrow> 64 word \<Rightarrow> 64 word" where
  "roundToBoundary val align = (val + (align - 1)) AND NOT (align - 1)"

definition sizeof_u64 :: nat where "sizeof_u64 = 8"
definition sizeof_char :: nat where "sizeof_char = 1"
definition alignof_char :: nat where "alignof_char = 1"

definition resolveSize :: "sysenv \<Rightarrow> ufsHeaderSizeRequestStruct \<Rightarrow> 64 word" where
  "resolveSize env sizes =
     (let size0 = of_nat sizeof_u64;
          size1 = roundToBoundary size0 (of_nat (alignof_struct ufsHeaderStruct))
                    + of_nat (sizeof_struct ufsHeaderStruct);
          size2 = roundToBoundary size1 (of_nat (alignof_struct ufsFileStruct))
                    + of_nat (sizeof_struct ufsFileStruct) * numFiles sizes;
          size3 = roundToBoundary size2 (of_nat (alignof_struct ufsAreaStruct))
                    + of_nat (sizeof_struct ufsAreaStruct) * numAreas sizes;
          size4 = roundToBoundary size3 (of_nat (alignof_struct ufsNodeStruct))
                    + of_nat (sizeof_struct ufsNodeStruct) * numNodes sizes;
          size5 = roundToBoundary size4 (of_nat alignof_char)
                    + of_nat sizeof_char * numStrBytes sizes
      in roundToBoundary size5 (pageSize env))"

text \<open>
  \<open>ufsHeaderGet\<close> returns the address of the header: the image pointer and the byte
  offset added to it.
\<close>

definition ufsHeaderGet :: "ufsImagePtr \<Rightarrow> ufsImagePtr \<times> nat" where
  "ufsHeaderGet img =
     (img, unat (roundToBoundary (of_nat sizeof_u64) (of_nat (alignof_struct ufsHeaderStruct))))"

definition ufsHeaderValidate :: "ufsImagePtr \<Rightarrow> world \<Rightarrow> fault + (ufsImagePtr \<times> world)" where
  "ufsHeaderValidate img w =
     (let (base, header) = ufsHeaderGet img in
      bindf (load_u32 w base (header + off_magicNumber)) (\<lambda>magic.
        if magic \<noteq> UFS_MAGIC_NUMBER then Inr (NULL, w\<lparr>ufsErrno := UFS_IMAGE_IS_CORRUPTED\<rparr>)
        else
          bindf (load_u32 w base (header + off_version)) (\<lambda>ver.
            if ver \<noteq> UFS_INDEX_VERSION then Inr (NULL, w\<lparr>ufsErrno := UFS_VERSION_MISMATCH\<rparr>)
            else Inr (img, w))))"

definition mountHeader ::
  "ufsImagePtr \<Rightarrow> ufsHeaderSizeRequestStruct \<Rightarrow> world \<Rightarrow> fault + (ufsImagePtr \<times> world)" where
  "mountHeader img sizes w =
     (let (base, header) = ufsHeaderGet img;
          offset0 = roundToBoundary (of_nat sizeof_u64) (of_nat (alignof_struct ufsHeaderStruct))
                      + of_nat (sizeof_struct ufsHeaderStruct);
          offsetF = roundToBoundary offset0 (of_nat (alignof_struct ufsFileStruct));
          offset1 = offsetF + of_nat (sizeof_struct ufsFileStruct) * numFiles sizes;
          offsetA = roundToBoundary offset1 (of_nat (alignof_struct ufsAreaStruct));
          offset2 = offsetA + of_nat (sizeof_struct ufsAreaStruct) * numAreas sizes;
          offsetN = roundToBoundary offset2 (of_nat (alignof_struct ufsNodeStruct));
          offset3 = offsetN + of_nat (sizeof_struct ufsNodeStruct) * numNodes sizes;
          offsetS = roundToBoundary offset3 (of_nat alignof_char)
      in
      bindf (store_u32 base (header + off_magicNumber) UFS_MAGIC_NUMBER w) (\<lambda>w.
      bindf (store_u32 base (header + off_version) UFS_INDEX_VERSION w) (\<lambda>w.
      bindf (store_u64 base (header + off_sizes + 8 * UFS_TYPES_FILE) (numFiles sizes) w) (\<lambda>w.
      bindf (store_u64 base (header + off_sizes + 8 * UFS_TYPES_AREA) (numAreas sizes) w) (\<lambda>w.
      bindf (store_u64 base (header + off_sizes + 8 * UFS_TYPES_NODE) (numNodes sizes) w) (\<lambda>w.
      bindf (store_u64 base (header + off_sizes + 8 * UFS_TYPES_STRING) (numStrBytes sizes) w) (\<lambda>w.
      bindf (store_u64 base (header + off_offsets + 8 * UFS_TYPES_FILE) offsetF w) (\<lambda>w.
      bindf (store_u64 base (header + off_offsets + 8 * UFS_TYPES_AREA) offsetA w) (\<lambda>w.
      bindf (store_u64 base (header + off_offsets + 8 * UFS_TYPES_NODE) offsetN w) (\<lambda>w.
      bindf (store_u64 base (header + off_offsets + 8 * UFS_TYPES_STRING) offsetS w) (\<lambda>w.
        Inr (img, w))))))))))))"

definition ufsHeaderInit ::
  "sysenv \<Rightarrow> string option \<Rightarrow> ufsHeaderSizeRequestStruct \<Rightarrow> world
     \<Rightarrow> fault + (ufsImagePtr \<times> world)" where
  "ufsHeaderInit env path sizes w =
     (case path of
        None \<Rightarrow> Inr (NULL, w\<lparr>ufsErrno := UFS_BAD_CALL\<rparr>)
      | Some p \<Rightarrow>
          if numFiles sizes = 0 \<or> numAreas sizes = 0 \<or> numNodes sizes = 0
               \<or> numStrBytes sizes = 0
          then Inr (NULL, w\<lparr>ufsErrno := UFS_BAD_CALL\<rparr>)
          else
            let w1 = emit (SysAccess p) w in
            if sys_access w1 p then Inr (NULL, w1\<lparr>ufsErrno := UFS_BAD_CALL\<rparr>)
            else
              bindf (ufsImageCreate env path (resolveSize env sizes) (emit SysSysconf w1))
                (\<lambda>(ret, w2).
                   if ret = NULL then Inr (NULL, w2)
                   else bindf (mountHeader ret sizes w2) (\<lambda>(img, w3).
                          ufsHeaderValidate img w3)))"

text \<open>The header as a value, read field by field through \<open>ufsHeaderGet\<close>.\<close>

record ufsHeader =
  magicNumber :: "32 word"
  version :: "32 word"
  sizes :: "64 word list"
  offsets :: "64 word list"

definition read_header :: "world \<Rightarrow> ufsImagePtr \<Rightarrow> fault + ufsHeader" where
  "read_header w img =
     (let (base, header) = ufsHeaderGet img in
      bindf (load_u32 w base (header + off_magicNumber)) (\<lambda>m.
      bindf (load_u32 w base (header + off_version)) (\<lambda>v.
      bindf (load_u64 w base (header + off_sizes + 8 * UFS_TYPES_FILE)) (\<lambda>s0.
      bindf (load_u64 w base (header + off_sizes + 8 * UFS_TYPES_AREA)) (\<lambda>s1.
      bindf (load_u64 w base (header + off_sizes + 8 * UFS_TYPES_NODE)) (\<lambda>s2.
      bindf (load_u64 w base (header + off_sizes + 8 * UFS_TYPES_STRING)) (\<lambda>s3.
      bindf (load_u64 w base (header + off_offsets + 8 * UFS_TYPES_FILE)) (\<lambda>o0.
      bindf (load_u64 w base (header + off_offsets + 8 * UFS_TYPES_AREA)) (\<lambda>o1.
      bindf (load_u64 w base (header + off_offsets + 8 * UFS_TYPES_NODE)) (\<lambda>o2.
      bindf (load_u64 w base (header + off_offsets + 8 * UFS_TYPES_STRING)) (\<lambda>o3.
        Inr \<lparr>magicNumber = m, version = v, sizes = [s0, s1, s2, s3],
             offsets = [o0, o1, o2, o3]\<rparr>)))))))))))"

text \<open>
  What \<open>mountHeader\<close> leaves behind, stated on values: the four offsets it stores, and
  the bytes of a file after its ten stores, in its order, through a mapping of the file.
\<close>

definition mountHeader_offsets :: "ufsHeaderSizeRequestStruct \<Rightarrow> 64 word list" where
  "mountHeader_offsets req =
     (let offset0 = roundToBoundary (of_nat sizeof_u64) (of_nat (alignof_struct ufsHeaderStruct))
                      + of_nat (sizeof_struct ufsHeaderStruct);
          offsetF = roundToBoundary offset0 (of_nat (alignof_struct ufsFileStruct));
          offset1 = offsetF + of_nat (sizeof_struct ufsFileStruct) * numFiles req;
          offsetA = roundToBoundary offset1 (of_nat (alignof_struct ufsAreaStruct));
          offset2 = offsetA + of_nat (sizeof_struct ufsAreaStruct) * numAreas req;
          offsetN = roundToBoundary offset2 (of_nat (alignof_struct ufsNodeStruct));
          offset3 = offsetN + of_nat (sizeof_struct ufsNodeStruct) * numNodes req;
          offsetS = roundToBoundary offset3 (of_nat alignof_char)
      in [offsetF, offsetA, offsetN, offsetS])"

definition mountHeader_bytes :: "ufsHeaderSizeRequestStruct \<Rightarrow> byte list \<Rightarrow> byte list" where
  "mountHeader_bytes req bs =
     (let header = snd (ufsHeaderGet NULL);
          os = mountHeader_offsets req
      in
      upd_bytes (header + off_offsets + 8 * UFS_TYPES_STRING) (le_bytes 8 (unat (os ! 3)))
     (upd_bytes (header + off_offsets + 8 * UFS_TYPES_NODE) (le_bytes 8 (unat (os ! 2)))
     (upd_bytes (header + off_offsets + 8 * UFS_TYPES_AREA) (le_bytes 8 (unat (os ! 1)))
     (upd_bytes (header + off_offsets + 8 * UFS_TYPES_FILE) (le_bytes 8 (unat (os ! 0)))
     (upd_bytes (header + off_sizes + 8 * UFS_TYPES_STRING) (le_bytes 8 (unat (numStrBytes req)))
     (upd_bytes (header + off_sizes + 8 * UFS_TYPES_NODE) (le_bytes 8 (unat (numNodes req)))
     (upd_bytes (header + off_sizes + 8 * UFS_TYPES_AREA) (le_bytes 8 (unat (numAreas req)))
     (upd_bytes (header + off_sizes + 8 * UFS_TYPES_FILE) (le_bytes 8 (unat (numFiles req)))
     (upd_bytes (header + off_version) (le_bytes 4 (unat UFS_INDEX_VERSION))
     (upd_bytes (header + off_magicNumber) (le_bytes 4 (unat UFS_MAGIC_NUMBER)) bs))))))))))"


section \<open>The layout in the words of the specification\<close>

text \<open>
  The total image length as the specification describes it, on unbounded naturals: start at
  8 (the length prelude), align up to the header's alignment, add the header size, then for
  each of the four tables (Files, Areas, Nodes, Strings) align up to that element's
  alignment and add slot size times capacity, and finally round up to the page size.
\<close>

definition spec_total_length :: "nat \<Rightarrow> nat \<Rightarrow> nat \<Rightarrow> nat \<Rightarrow> nat \<Rightarrow> nat" where
  "spec_total_length page nf na nn ns =
     (let s0 = 8;
          s1 = align_up s0 (alignof_struct ufsHeaderStruct) + sizeof_struct ufsHeaderStruct;
          s2 = align_up s1 (alignof_struct ufsFileStruct) + sizeof_struct ufsFileStruct * nf;
          s3 = align_up s2 (alignof_struct ufsAreaStruct) + sizeof_struct ufsAreaStruct * na;
          s4 = align_up s3 (alignof_struct ufsNodeStruct) + sizeof_struct ufsNodeStruct * nn;
          s5 = align_up s4 alignof_char + sizeof_char * ns
      in align_up s5 page)"

text \<open>
  The offsets of the four tables as the specification describes them: each table begins at
  the next boundary aligned for its element type after the preceding region ends.
\<close>

definition spec_table_offsets :: "nat \<Rightarrow> nat \<Rightarrow> nat \<Rightarrow> nat list" where
  "spec_table_offsets nf na nn =
     (let hdr_end = align_up 8 (alignof_struct ufsHeaderStruct) + sizeof_struct ufsHeaderStruct;
          oF = align_up hdr_end (alignof_struct ufsFileStruct);
          oA = align_up (oF + sizeof_struct ufsFileStruct * nf) (alignof_struct ufsAreaStruct);
          oN = align_up (oA + sizeof_struct ufsAreaStruct * na) (alignof_struct ufsNodeStruct);
          oS = align_up (oN + sizeof_struct ufsNodeStruct * nn) alignof_char
      in [oF, oA, oN, oS])"



section \<open>A concrete environment and concrete worlds\<close>

text \<open>
  An operating system in which every call succeeds, with pages of 4096 bytes; a world with
  no file and no mapping; and worlds with one file under the path \<open>img\<close>.
\<close>

definition ex_env :: sysenv where
  "ex_env = \<lparr>pageSize = 4096, open_errno = None, fstat_fails = False,
             ftruncate_fails = False, mmap_fails = False, msync_fails = False\<rparr>"

definition ex_world :: world where
  "ex_world = \<lparr>files = Map.empty, mappings = [], ufsErrno = UFS_NO_ERROR, syscalls = []\<rparr>"

definition ex_world_file :: "byte list \<Rightarrow> world" where
  "ex_world_file bs = ex_world\<lparr>files := [''img'' \<mapsto> bs]\<rparr>"

definition ex_world_mapped :: "byte list \<Rightarrow> world" where
  "ex_world_mapped bs = ex_world\<lparr>files := [''img'' \<mapsto> bs],
                                  mappings := [Some (''img'', length bs)]\<rparr>"

definition ex_request :: ufsHeaderSizeRequestStruct where
  "ex_request = \<lparr>numFiles = 1, numAreas = 1, numNodes = 1, numStrBytes = 64\<rparr>"

text \<open>
  Two requests with four positive capacities whose layout does not fit in 64 bits: with
  \<open>2^64 - 160\<close> string bytes the sum of the regions is exactly \<open>2^64\<close>, and with
  \<open>2^64 - 1\<close> string bytes it is \<open>2^64 + 159\<close>.
\<close>

definition ex_request_wrap :: ufsHeaderSizeRequestStruct where
  "ex_request_wrap =
     \<lparr>numFiles = 1, numAreas = 1, numNodes = 1, numStrBytes = 18446744073709551456\<rparr>"

definition ex_request_huge :: ufsHeaderSizeRequestStruct where
  "ex_request_huge =
     \<lparr>numFiles = 1, numAreas = 1, numNodes = 1, numStrBytes = 18446744073709551615\<rparr>"


section \<open>Layout constants and bytes\<close>

lemma layout_consts:
  "sizeof_struct ufsHeaderStruct = 72" "alignof_struct ufsHeaderStruct = 8"
  "sizeof_struct ufsFileStruct = 16" "alignof_struct ufsFileStruct = 8"
  "sizeof_struct ufsAreaStruct = 16" "alignof_struct ufsAreaStruct = 8"
  "sizeof_struct ufsNodeStruct = 48" "alignof_struct ufsNodeStruct = 8"
  "off_magicNumber = 0" "off_version = 4" "off_sizes = 8" "off_offsets = 40"
  by (simp_all add: sizeof_struct_def ufsHeaderStruct_def ufsFileStruct_def ufsAreaStruct_def
      ufsNodeStruct_def align_up_def UFS_TYPES_COUNT_def off_magicNumber_def off_version_def
      off_sizes_def off_offsets_def)

lemma ufsHeaderGet_eq: "ufsHeaderGet img = (img, 8)"
  by (simp add: ufsHeaderGet_def layout_consts sizeof_u64_def roundToBoundary_def)

lemma length_le_bytes: "length (le_bytes n v) = n"
  by (induction n arbitrary: v) simp_all

lemma le_val_le_bytes: "le_val (le_bytes n v) = v mod 256 ^ n"
proof (induction n arbitrary: v)
  case 0
  then show ?case by simp
next
  case (Suc n)
  have "unat (of_nat (v mod 256) :: byte) = v mod 256"
    by (simp add: unat_of_nat)
  then show ?case
    using Suc[of "v div 256"] by (simp add: mod_mult2_eq)
qed

lemma le_val_le_bytes_u64: "of_nat (le_val (le_bytes 8 (unat (x :: 64 word)))) = x"
proof -
  have "unat x < 256 ^ 8" using unsigned_less[of x, where ?'a = nat] by simp
  then show ?thesis by (simp add: le_val_le_bytes)
qed

lemma le_val_le_bytes_u32: "of_nat (le_val (le_bytes 4 (unat (x :: 32 word)))) = x"
proof -
  have "unat x < 256 ^ 4" using unsigned_less[of x, where ?'a = nat] by simp
  then show ?thesis by (simp add: le_val_le_bytes)
qed

lemma length_upd_bytes:
  "off + length v \<le> length bs \<Longrightarrow> length (upd_bytes off v bs) = length bs"
  by (simp add: upd_bytes_def)

lemma sub_upd_same:
  "off + length v \<le> length bs \<Longrightarrow> sub_bytes off (length v) (upd_bytes off v bs) = v"
  by (simp add: sub_bytes_def upd_bytes_def)

lemma sub_upd_below:
  "off' + k \<le> off \<Longrightarrow> off + length v \<le> length bs \<Longrightarrow>
   sub_bytes off' k (upd_bytes off v bs) = sub_bytes off' k bs"
proof -
  assume a: "off' + k \<le> off" and b: "off + length v \<le> length bs"
  have "take k (drop off' (take off bs @ v @ drop (off + length v) bs))
        = take k (drop off' (take off bs))"
    using a b by simp
  also have "\<dots> = take k (take (off - off') (drop off' bs))"
    by (simp add: drop_take)
  also have "\<dots> = take k (drop off' bs)"
    using a by (simp add: min_def)
  finally show ?thesis by (simp add: sub_bytes_def upd_bytes_def)
qed

lemma sub_upd_above:
  "off + length v \<le> off' \<Longrightarrow> off + length v \<le> length bs \<Longrightarrow>
   sub_bytes off' k (upd_bytes off v bs) = sub_bytes off' k bs"
  by (simp add: sub_bytes_def upd_bytes_def)


lemma store_upd:
  assumes "a < length (mappings w)" "mappings w ! a = Some (p, n)"
    and "off + length v \<le> n" "off + length v \<le> length bs"
  shows "store (Ptr a) off v (w\<lparr>files := (files w)(p \<mapsto> bs)\<rparr>)
         = Inr (w\<lparr>files := (files w)(p \<mapsto> upd_bytes off v bs)\<rparr>)"
  using assms by (simp add: store_def img_file_def bindf_def)

lemma load_upd:
  assumes "a < length (mappings w)" "mappings w ! a = Some (p, n)"
    and "off + k \<le> n" "off + k \<le> length bs"
  shows "load (w\<lparr>files := (files w)(p \<mapsto> bs)\<rparr>) (Ptr a) off k = Inr (sub_bytes off k bs)"
  using assms by (simp add: load_def img_file_def bindf_def)

lemma world_files_triv: "files w p = Some bs \<Longrightarrow> w\<lparr>files := (files w)(p \<mapsto> bs)\<rparr> = w"
  by (simp add: map_upd_triv)

lemma mountHeader_upd:
  assumes m: "a < length (mappings w)" "mappings w ! a = Some (p, n)"
    and n: "80 \<le> n" and l: "80 \<le> length bs"
  shows "mountHeader (Ptr a) req (w\<lparr>files := (files w)(p \<mapsto> bs)\<rparr>)
         = Inr (Ptr a, w\<lparr>files := (files w)(p \<mapsto> mountHeader_bytes req bs)\<rparr>)"
  using n l
  by (simp add: mountHeader_def mountHeader_bytes_def mountHeader_offsets_def ufsHeaderGet_eq
      layout_consts
      store_u32_def store_u64_def store_upd[OF m] length_le_bytes length_upd_bytes bindf_def
      UFS_TYPES_FILE_def UFS_TYPES_AREA_def UFS_TYPES_NODE_def UFS_TYPES_STRING_def Let_def)


lemma length_resize: "length (resize n bs) = n"
  by (simp add: resize_def)

lemma not_less8_unat: "\<not> (sz :: 64 word) < 8 \<Longrightarrow> 8 \<le> unat sz"
  by (simp add: word_less_nat_alt)

lemma ufsImageCreate_ok:
  assumes sz: "\<not> sz < 8"
    and env: "open_errno env = None" "\<not> ftruncate_fails env" "\<not> mmap_fails env"
  shows "ufsImageCreate env (Some p) sz w =
         Inr (Ptr (length (mappings w)),
              w\<lparr>files := (files w)(p \<mapsto> upd_bytes 0 (le_bytes 8 (unat sz))
                          (resize (unat sz) (case files w p of None \<Rightarrow> [] | Some bs \<Rightarrow> bs))),
                mappings := mappings w @ [Some (p, unat sz)],
                ufsErrno := UFS_NO_ERROR,
                syscalls := syscalls w @ [SysOpen p, SysFtruncate p (unat sz),
                                          SysMmap p (unat sz), SysClose p]\<rparr>)"
  using assms not_less8_unat[OF sz]
  by (cases "files w p")
     (simp_all add: ufsImageCreate_def emit_def sys_creat_def sys_ftruncate_def sys_mmap_def
       store_u64_def store_def img_file_def bindf_def nth_append length_le_bytes length_resize
       Let_def)

lemma ufsImageOpen_ok:
  assumes f: "files w p = Some bs" and len: "8 \<le> length bs"
    and env: "open_errno env = None" "\<not> fstat_fails env" "\<not> mmap_fails env"
  shows "ufsImageOpen env (Some p) w =
         Inr (Ptr (length (mappings w)),
              w\<lparr>files := (files w)(p \<mapsto> upd_bytes 0
                          (le_bytes 8 (unat (of_nat (length bs) :: 64 word))) bs),
                mappings := mappings w @ [Some (p, length bs)],
                ufsErrno := UFS_NO_ERROR,
                syscalls := syscalls w @ [SysAccess p, SysOpen p, SysFstat p,
                                          SysMmap p (length bs), SysClose p]\<rparr>)"
  using assms
  by (simp add: ufsImageOpen_def emit_def sys_mmap_def
       store_u64_def store_def img_file_def bindf_def nth_append length_le_bytes Let_def)

lemma load_ok:
  assumes "a < length (mappings w)" "mappings w ! a = Some (p, n)" "files w p = Some bs"
    and "off + k \<le> n" "off + k \<le> length bs"
  shows "load w (Ptr a) off k = Inr (sub_bytes off k bs)"
  using assms by (simp add: load_def img_file_def bindf_def)

lemma mountHeader_ok:
  assumes "a < length (mappings w)" "mappings w ! a = Some (p, n)" "files w p = Some bs"
    and "80 \<le> n" "80 \<le> length bs"
  shows "mountHeader (Ptr a) req w
         = Inr (Ptr a, w\<lparr>files := (files w)(p \<mapsto> mountHeader_bytes req bs)\<rparr>)"
  using mountHeader_upd[OF assms(1,2,4,5), of req] assms(3) by (simp add: world_files_triv)

lemma ufsHeaderValidate_ok:
  assumes "a < length (mappings w)" "mappings w ! a = Some (p, n)" "files w p = Some bs"
    and "16 \<le> n" "16 \<le> length bs"
  shows "ufsHeaderValidate (Ptr a) w =
         Inr (if of_nat (le_val (sub_bytes 8 4 bs)) \<noteq> UFS_MAGIC_NUMBER
              then (NULL, w\<lparr>ufsErrno := UFS_IMAGE_IS_CORRUPTED\<rparr>)
              else if of_nat (le_val (sub_bytes 12 4 bs)) \<noteq> UFS_INDEX_VERSION
              then (NULL, w\<lparr>ufsErrno := UFS_VERSION_MISMATCH\<rparr>)
              else (Ptr a, w))"
  using assms
  by (simp add: ufsHeaderValidate_def ufsHeaderGet_eq layout_consts load_u32_def
      load_ok[OF assms(1,2,3)] bindf_def)

lemma read_header_ok:
  assumes "a < length (mappings w)" "mappings w ! a = Some (p, n)" "files w p = Some bs"
    and "80 \<le> n" "80 \<le> length bs"
  shows "read_header w (Ptr a) =
         Inr \<lparr>magicNumber = of_nat (le_val (sub_bytes 8 4 bs)),
              version = of_nat (le_val (sub_bytes 12 4 bs)),
              sizes = [of_nat (le_val (sub_bytes 16 8 bs)), of_nat (le_val (sub_bytes 24 8 bs)),
                       of_nat (le_val (sub_bytes 32 8 bs)), of_nat (le_val (sub_bytes 40 8 bs))],
              offsets = [of_nat (le_val (sub_bytes 48 8 bs)), of_nat (le_val (sub_bytes 56 8 bs)),
                         of_nat (le_val (sub_bytes 64 8 bs)), of_nat (le_val (sub_bytes 72 8 bs))]\<rparr>"
  using assms
  by (simp add: read_header_def ufsHeaderGet_eq layout_consts load_u32_def load_u64_def
      load_ok[OF assms(1,2,3)] bindf_def
      UFS_TYPES_FILE_def UFS_TYPES_AREA_def UFS_TYPES_NODE_def UFS_TYPES_STRING_def)


section \<open>Rounding to a power of two\<close>

lemma unat_lt64: "unat (w::64 word) < 2 ^ 64"
  using unsigned_less[of w, where ?'a = nat] by simp

lemma take_bit_unat64: "take_bit 64 (unat (w::64 word)) = unat w"
  by (rule take_bit_nat_eq_self) (rule unat_lt64)

lemma unat_pow2: assumes k: "k < 64" shows "unat (2 ^ k :: 64 word) = 2 ^ k"
proof -
  have "unat (word_of_nat (2 ^ k) :: 64 word) = 2 ^ k mod 2 ^ LENGTH(64)"
    by (rule unat_of_nat)
  moreover have "(word_of_nat (2 ^ k) :: 64 word) = 2 ^ k"
    by simp
  moreover have "(2::nat) ^ k < 2 ^ 64"
    using k by (intro power_strict_increasing) simp_all
  ultimately show ?thesis by simp
qed

lemma and_not_mask_push_drop: "(w::64 word) AND NOT (mask k) = push_bit k (drop_bit k w)"
  by (rule bit_eqI) (auto simp add: bit_simps)

lemma and_not_mask_unat: "unat ((w::64 word) AND NOT (mask k)) = (unat w div 2^k) * 2^k"
proof -
  have le: "(unat w div 2^k) * 2^k \<le> unat w"
    by simp
  with unat_lt64[of w] have lt: "(unat w div 2^k) * 2^k < 2 ^ 64"
    by linarith
  have d: "unat (drop_bit k w) = unat w div 2 ^ k"
    by (metis drop_bit_eq_div unat_drop_bit_eq)
  have "unat (push_bit k (drop_bit k w)) = take_bit 64 (push_bit k (unat (drop_bit k w)))"
    by (simp add: unsigned_push_bit_eq)
  also have "\<dots> = take_bit 64 ((unat w div 2^k) * 2^k)"
    by (simp only: d push_bit_eq_mult)
  also have "\<dots> = (unat w div 2^k) * 2^k"
    using lt by (rule take_bit_nat_eq_self)
  finally show ?thesis
    by (simp add: and_not_mask_push_drop)
qed

lemma rtb_pow2:
  assumes k: "k < 64" and fit: "((unat (v::64 word) + (2 ^ k - 1)) div 2 ^ k) * 2 ^ k < 2 ^ 64"
  shows "unat ((v + (2 ^ k - 1)) AND NOT (2 ^ k - 1)) = ((unat v + (2 ^ k - 1)) div 2 ^ k) * 2 ^ k"
proof -
  have m: "(2 ^ k - 1 :: 64 word) = mask k"
    by (simp add: mask_eq_decr_exp)
  have um: "unat (2 ^ k - 1 :: 64 word) = 2 ^ k - 1"
  proof -
    have "(1 :: 64 word) \<le> 2 ^ k"
      by (simp add: word_le_nat_alt unat_pow2[OF k])
    then have "unat (2 ^ k - 1 :: 64 word) = unat (2 ^ k :: 64 word) - unat (1 :: 64 word)"
      by (rule unat_sub)
    then show ?thesis by (simp add: unat_pow2[OF k])
  qed
  have e: "(2::nat) ^ 64 = 2 ^ (64 - k) * 2 ^ k"
    using k by (simp flip: power_add)
  have "unat v + (2 ^ k - 1) < 2 ^ 64"
  proof (rule ccontr)
    assume "\<not> unat v + (2 ^ k - 1) < 2 ^ 64"
    then have "2 ^ (64 - k) * 2 ^ k \<le> unat v + (2 ^ k - 1)"
      using e by simp
    then have "(2 ^ (64 - k) * 2 ^ k) div 2 ^ k \<le> (unat v + (2 ^ k - 1)) div 2 ^ k"
      by (rule div_le_mono)
    then have "(2::nat) ^ (64 - k) \<le> (unat v + (2 ^ k - 1)) div 2 ^ k"
      by simp
    then have "(2::nat) ^ (64 - k) * 2 ^ k \<le> ((unat v + (2 ^ k - 1)) div 2 ^ k) * 2 ^ k"
      by simp
    with e fit show False by linarith
  qed
  then have "unat (v + (2 ^ k - 1)) = unat v + (2 ^ k - 1)"
    using um unat_add_lem[of v "2 ^ k - 1"] by simp
  then show ?thesis
    using and_not_mask_unat[of "v + (2 ^ k - 1)" k] by (simp add: m)
qed



section \<open>Results of the memory operations\<close>

lemma bindf_Inr: "bindf m f = Inr y \<longleftrightarrow> (\<exists>x. m = Inr x \<and> f x = Inr y)"
  by (cases m) (simp_all add: bindf_def)

lemma load_Inr:
  "load w img off k = Inr x \<longleftrightarrow>
     (\<exists>p n bs. img_file w img = Inr (p, n, bs) \<and> off + k \<le> n \<and> off + k \<le> length bs
        \<and> x = sub_bytes off k bs)"
  by (auto simp add: load_def bindf_Inr)

lemma store_Inr:
  "store img off v w = Inr w' \<longleftrightarrow>
     (\<exists>p n bs. img_file w img = Inr (p, n, bs) \<and> off + length v \<le> n
        \<and> off + length v \<le> length bs
        \<and> w' = w\<lparr>files := (files w)(p \<mapsto> upd_bytes off v bs)\<rparr>)"
  by (auto simp add: store_def bindf_Inr)

lemma img_file_frame:
  "files w' = files w \<Longrightarrow> mappings w' = mappings w \<Longrightarrow> img_file w' q = img_file w q"
  by (auto simp add: img_file_def split: ufsImagePtr.splits option.splits)

lemma load_frame:
  "files w' = files w \<Longrightarrow> mappings w' = mappings w \<Longrightarrow> load w' q off k = load w q off k"
  using img_file_frame[of w' w q] by (simp add: load_def)

lemma bindf_InrD: "bindf m f = Inr y \<Longrightarrow> \<exists>x. m = Inr x \<and> f x = Inr y"
  by (simp add: bindf_Inr)

lemma ufsHeaderValidate_Inr:
  assumes "ufsHeaderValidate img w = Inr (r, w')"
  shows "w' = w \<or> w' = w\<lparr>ufsErrno := UFS_IMAGE_IS_CORRUPTED\<rparr>
           \<or> w' = w\<lparr>ufsErrno := UFS_VERSION_MISMATCH\<rparr>"
proof -
  from assms have
    "bindf (load_u32 w img (8 + off_magicNumber)) (\<lambda>magic.
        if magic \<noteq> UFS_MAGIC_NUMBER then Inr (NULL, w\<lparr>ufsErrno := UFS_IMAGE_IS_CORRUPTED\<rparr>)
        else
          bindf (load_u32 w img (8 + off_version)) (\<lambda>ver.
            if ver \<noteq> UFS_INDEX_VERSION then Inr (NULL, w\<lparr>ufsErrno := UFS_VERSION_MISMATCH\<rparr>)
            else Inr (img, w))) = Inr (r, w')"
    by (simp add: ufsHeaderValidate_def ufsHeaderGet_eq)
  from bindf_InrD[OF this] obtain magic where
    c: "(if magic \<noteq> UFS_MAGIC_NUMBER then Inr (NULL, w\<lparr>ufsErrno := UFS_IMAGE_IS_CORRUPTED\<rparr>)
         else bindf (load_u32 w img (8 + off_version)) (\<lambda>ver.
            if ver \<noteq> UFS_INDEX_VERSION then Inr (NULL, w\<lparr>ufsErrno := UFS_VERSION_MISMATCH\<rparr>)
            else Inr (img, w))) = Inr (r, w')"
    by (elim exE conjE)
  show ?thesis
  proof (cases "magic \<noteq> UFS_MAGIC_NUMBER")
    case True
    with c show ?thesis by simp
  next
    case False
    with c have "bindf (load_u32 w img (8 + off_version)) (\<lambda>ver.
            if ver \<noteq> UFS_INDEX_VERSION then Inr (NULL, w\<lparr>ufsErrno := UFS_VERSION_MISMATCH\<rparr>)
            else Inr (img, w)) = Inr (r, w')"
      by simp
    from bindf_InrD[OF this] obtain ver where
      "(if ver \<noteq> UFS_INDEX_VERSION then Inr (NULL, w\<lparr>ufsErrno := UFS_VERSION_MISMATCH\<rparr>)
            else Inr (img, w)) = (Inr (r, w') :: fault + ufsImagePtr \<times> world)"
      by (elim exE conjE)
    then show ?thesis by (cases "ver \<noteq> UFS_INDEX_VERSION") simp_all
  qed
qed

lemma ex_header_loads:
  "load_u32 (ex_world_mapped (replicate 8 0 @ le_bytes 4 (unat m) @ le_bytes 4 (unat v)))
     (fst (ufsHeaderGet (Ptr 0))) (snd (ufsHeaderGet (Ptr 0)) + off_magicNumber) = Inr m"
  "load_u32 (ex_world_mapped (replicate 8 0 @ le_bytes 4 (unat m) @ le_bytes 4 (unat v)))
     (fst (ufsHeaderGet (Ptr 0))) (snd (ufsHeaderGet (Ptr 0)) + off_version) = Inr v"
  by (simp_all add: ex_world_mapped_def ex_world_def ufsHeaderGet_eq layout_consts load_u32_def
      load_def img_file_def bindf_def sub_bytes_def length_le_bytes le_val_le_bytes_u32)


section \<open>Creating an image and mounting the header\<close>

lemma store_upd_if:
  assumes "a < length (mappings w)" "mappings w ! a = Some (p, n)"
  shows "store (Ptr a) off v (w\<lparr>files := (files w)(p \<mapsto> bs)\<rparr>)
         = (if off + length v \<le> n \<and> off + length v \<le> length bs
            then Inr (w\<lparr>files := (files w)(p \<mapsto> upd_bytes off v bs)\<rparr>)
            else Inl BadAccess)"
  using assms by (simp add: store_def img_file_def bindf_def)

lemma mountHeader_upd_fault:
  assumes m: "a < length (mappings w)" "mappings w ! a = Some (p, n)"
    and small: "\<not> (80 \<le> n \<and> 80 \<le> length bs)"
  shows "mountHeader (Ptr a) req (w\<lparr>files := (files w)(p \<mapsto> bs)\<rparr>) = Inl BadAccess"
  using small
  by (simp add: mountHeader_def ufsHeaderGet_eq layout_consts
      store_u32_def store_u64_def store_upd_if[OF m] length_le_bytes length_upd_bytes bindf_def
      UFS_TYPES_FILE_def UFS_TYPES_AREA_def UFS_TYPES_NODE_def UFS_TYPES_STRING_def Let_def)

lemma mountHeader_fault:
  assumes "a < length (mappings w)" "mappings w ! a = Some (p, n)" "files w p = Some bs"
    and "\<not> (80 \<le> n \<and> 80 \<le> length bs)"
  shows "mountHeader (Ptr a) req w = Inl BadAccess"
  using mountHeader_upd_fault[OF assms(1,2,4), of req] assms(3) by (simp add: world_files_triv)


lemma sub_upd_eq:
  "length v = k \<Longrightarrow> off + k \<le> length bs \<Longrightarrow> sub_bytes off k (upd_bytes off v bs) = v"
  using sub_upd_same[of off v bs] by auto

lemma mountHeader_bytes_fields:
  assumes "80 \<le> length bs"
  shows "length (mountHeader_bytes req bs) = length bs"
    and "sub_bytes 0 8 (mountHeader_bytes req bs) = sub_bytes 0 8 bs"
    and "sub_bytes 8 4 (mountHeader_bytes req bs) = le_bytes 4 (unat UFS_MAGIC_NUMBER)"
    and "sub_bytes 12 4 (mountHeader_bytes req bs) = le_bytes 4 (unat UFS_INDEX_VERSION)"
    and "sub_bytes 16 8 (mountHeader_bytes req bs) = le_bytes 8 (unat (numFiles req))"
    and "sub_bytes 24 8 (mountHeader_bytes req bs) = le_bytes 8 (unat (numAreas req))"
    and "sub_bytes 32 8 (mountHeader_bytes req bs) = le_bytes 8 (unat (numNodes req))"
    and "sub_bytes 40 8 (mountHeader_bytes req bs) = le_bytes 8 (unat (numStrBytes req))"
    and "sub_bytes 48 8 (mountHeader_bytes req bs) = le_bytes 8 (unat (mountHeader_offsets req ! 0))"
    and "sub_bytes 56 8 (mountHeader_bytes req bs) = le_bytes 8 (unat (mountHeader_offsets req ! 1))"
    and "sub_bytes 64 8 (mountHeader_bytes req bs) = le_bytes 8 (unat (mountHeader_offsets req ! 2))"
    and "sub_bytes 72 8 (mountHeader_bytes req bs) = le_bytes 8 (unat (mountHeader_offsets req ! 3))"
  using assms
  by (simp_all add: mountHeader_bytes_def ufsHeaderGet_eq layout_consts Let_def
      UFS_TYPES_FILE_def UFS_TYPES_AREA_def UFS_TYPES_NODE_def UFS_TYPES_STRING_def
      length_le_bytes length_upd_bytes sub_upd_eq sub_upd_below sub_upd_above)

lemma resize_Nil: "resize n [] = replicate n 0"
  by (simp add: resize_def)

lemma ufsImageCreate_fail:
  assumes "sz < 8 \<or> open_errno env \<noteq> None \<or> ftruncate_fails env \<or> mmap_fails env"
  shows "\<exists>w'. ufsImageCreate env (Some p) sz w = Inr (NULL, w') \<and> mappings w' = mappings w"
  using assms
  by (auto simp add: ufsImageCreate_def emit_def sys_creat_def sys_ftruncate_def Let_def
      split: option.splits)

lemma ufsHeaderInit_ok:
  assumes req: "numFiles req \<noteq> 0" "numAreas req \<noteq> 0" "numNodes req \<noteq> 0"
      "numStrBytes req \<noteq> 0"
    and fresh: "files w p = None"
    and env: "open_errno env = None" "\<not> ftruncate_fails env" "\<not> mmap_fails env"
    and sz: "80 \<le> unat (resolveSize env req)"
  shows "ufsHeaderInit env (Some p) req w =
         Inr (Ptr (length (mappings w)),
              w\<lparr>files := (files w)(p \<mapsto> mountHeader_bytes req
                          (upd_bytes 0 (le_bytes 8 (unat (resolveSize env req)))
                             (replicate (unat (resolveSize env req)) 0))),
                mappings := mappings w @ [Some (p, unat (resolveSize env req))],
                ufsErrno := UFS_NO_ERROR,
                syscalls := syscalls w @ [SysAccess p, SysSysconf, SysOpen p,
                   SysFtruncate p (unat (resolveSize env req)),
                   SysMmap p (unat (resolveSize env req)), SysClose p]\<rparr>)"
proof -
  define sz where "sz = resolveSize env req"
  define n where "n = unat sz"
  define W0 where "W0 = emit SysSysconf (emit (SysAccess p) w)"
  define B0 where "B0 = upd_bytes 0 (le_bytes 8 n) (replicate n 0)"
  define W1 where "W1 = W0\<lparr>files := (files W0)(p \<mapsto> B0),
                mappings := mappings W0 @ [Some (p, n)],
                ufsErrno := UFS_NO_ERROR,
                syscalls := syscalls W0 @ [SysOpen p, SysFtruncate p n, SysMmap p n, SysClose p]\<rparr>"
  define W2 where "W2 = W1\<lparr>files := (files W1)(p \<mapsto> mountHeader_bytes req B0)\<rparr>"
  have n80: "80 \<le> n" using sz by (simp add: n_def sz_def)
  have ge8: "\<not> sz < 8" using n80 by (simp add: word_less_nat_alt n_def)
  have lB0: "length B0 = n"
    using n80 by (simp add: B0_def length_upd_bytes length_le_bytes)
  have f0: "files W0 p = None"
    using fresh by (simp add: W0_def emit_def)
  have c: "ufsImageCreate env (Some p) sz W0 = Inr (Ptr (length (mappings w)), W1)"
    using ufsImageCreate_ok[OF ge8 env, of p W0] f0
    by (simp add: W1_def B0_def n_def resize_Nil W0_def emit_def)
  have m: "mountHeader (Ptr (length (mappings w))) req W1
             = Inr (Ptr (length (mappings w)), W2)"
    unfolding W2_def
    by (rule mountHeader_ok[where n = n])
       (simp_all add: W1_def W0_def emit_def nth_append n80 lB0)
  have v: "ufsHeaderValidate (Ptr (length (mappings w))) W2
             = Inr (Ptr (length (mappings w)), W2)"
    using ufsHeaderValidate_ok[of "length (mappings w)" W2 p n "mountHeader_bytes req B0"]
      n80 lB0
    by (simp add: W2_def W1_def W0_def emit_def nth_append mountHeader_bytes_fields
        le_val_le_bytes_u32)
  have fe: "files (emit (SysAccess p) w) p = None"
    using fresh by (simp add: emit_def)
  have "ufsHeaderInit env (Some p) req w = Inr (Ptr (length (mappings w)), W2)"
    using req fe c m v
    by (simp add: ufsHeaderInit_def sys_access_def bindf_def Let_def
        flip: W0_def sz_def)
  then show ?thesis
    by (simp add: W2_def W1_def W0_def B0_def n_def sz_def emit_def)
qed

lemma ufsHeaderInit_nonnull:
  assumes i: "ufsHeaderInit env path req w = Inr (r, w')" and r: "r \<noteq> NULL"
  shows "\<exists>p. path = Some p \<and> numFiles req \<noteq> 0 \<and> numAreas req \<noteq> 0 \<and> numNodes req \<noteq> 0
           \<and> numStrBytes req \<noteq> 0 \<and> files w p = None
           \<and> open_errno env = None \<and> \<not> ftruncate_fails env \<and> \<not> mmap_fails env
           \<and> 80 \<le> unat (resolveSize env req)"
proof (cases path)
  case None
  with i r show ?thesis by (simp add: ufsHeaderInit_def)
next
  case (Some p)
  define sz where "sz = resolveSize env req"
  define W0 where "W0 = emit SysSysconf (emit (SysAccess p) w)"
  have nz: "numFiles req \<noteq> 0 \<and> numAreas req \<noteq> 0 \<and> numNodes req \<noteq> 0
           \<and> numStrBytes req \<noteq> 0"
    using i r Some by (auto simp add: ufsHeaderInit_def)
  have fresh: "files w p = None"
    using i r Some nz
    by (cases "files w p") (auto simp add: ufsHeaderInit_def sys_access_def emit_def Let_def)
  have fe: "files (emit (SysAccess p) w) p = None"
    using fresh by (simp add: emit_def)
  have step: "bindf (ufsImageCreate env (Some p) sz W0)
                (\<lambda>(ret, w2).
                   if ret = NULL then Inr (NULL, w2)
                   else bindf (mountHeader ret req w2) (\<lambda>(img, w3).
                          ufsHeaderValidate img w3)) = Inr (r, w')"
    using i Some nz fe
    by (simp add: ufsHeaderInit_def sys_access_def Let_def sz_def W0_def)
  have envok: "\<not> (sz < 8 \<or> open_errno env \<noteq> None \<or> ftruncate_fails env \<or> mmap_fails env)"
  proof
    assume "sz < 8 \<or> open_errno env \<noteq> None \<or> ftruncate_fails env \<or> mmap_fails env"
    from ufsImageCreate_fail[OF this, of p W0] obtain w'' where
      "ufsImageCreate env (Some p) sz W0 = Inr (NULL, w'')" by blast
    with step r show False by (simp add: bindf_def)
  qed
  then have ge8: "\<not> sz < 8" and env: "open_errno env = None" "\<not> ftruncate_fails env"
      "\<not> mmap_fails env"
    by auto
  have f0: "files W0 p = None"
    using fresh by (simp add: W0_def emit_def)
  note c = ufsImageCreate_ok[OF ge8 env, of p W0]
  have big: "80 \<le> unat sz"
  proof (rule ccontr)
    assume small: "\<not> 80 \<le> unat sz"
    have "mountHeader (Ptr (length (mappings W0))) req
            (W0\<lparr>files := (files W0)(p \<mapsto> upd_bytes 0 (le_bytes 8 (unat sz))
                          (resize (unat sz) (case files W0 p of None \<Rightarrow> [] | Some bs \<Rightarrow> bs))),
                mappings := mappings W0 @ [Some (p, unat sz)],
                ufsErrno := UFS_NO_ERROR,
                syscalls := syscalls W0 @ [SysOpen p, SysFtruncate p (unat sz),
                                          SysMmap p (unat sz), SysClose p]\<rparr>) = Inl BadAccess"
      by (rule mountHeader_fault[where n = "unat sz" and p = p])
         (use small in \<open>simp_all add: nth_append\<close>)
    with step c show False by (simp add: bindf_def)
  qed
  show ?thesis
    using Some nz fresh env big by (simp add: sz_def)
qed


section \<open>The computed layout on natural numbers\<close>

lemma div_round_mult: "0 < a \<Longrightarrow> (a * k + (a - 1)) div a = (k::nat)"
  by (metis add_cancel_left_right diff_less div_less div_mult_self4
      less_numeral_extra(1) not_gr_zero)

lemma align_up_dvd:
  assumes "a dvd n" "0 < a"
  shows "align_up n a = n"
proof -
  from assms(1) obtain k where n: "n = a * k"
    by (auto elim: dvdE)
  have "align_up n a = ((a * k + (a - 1)) div a) * a"
    by (simp only: align_up_def n)
  also have "\<dots> = k * a"
    by (simp only: div_round_mult[OF assms(2)])
  finally show ?thesis
    by (simp add: n)
qed

lemma align_up_ge: "0 < a \<Longrightarrow> n \<le> align_up n a"
proof -
  assume a: "0 < a"
  have "n + (a - 1) < ((n + (a - 1)) div a) * a + a"
    using a by (metis add.commute div_mult_mod_eq mod_less_divisor add_less_cancel_left mult.commute)
  with a show ?thesis by (simp add: align_up_def)
qed

lemma align_up_dvd_result: "a dvd align_up n a"
  by (simp add: align_up_def)

lemma rtb_align_up:
  assumes "k < 64" "align_up (unat v) (2 ^ k) < 2 ^ 64"
  shows "unat (roundToBoundary v (2 ^ k)) = align_up (unat v) (2 ^ k)"
  using rtb_pow2[of k v] assms by (simp add: roundToBoundary_def align_up_def)

lemma rtb8:
  assumes "align_up (unat v) 8 < 2 ^ 64"
  shows "unat (roundToBoundary v 8) = align_up (unat v) 8"
  using rtb_align_up[of 3 v] assms by simp

lemma rtb1: "roundToBoundary v 1 = v"
  by (simp add: roundToBoundary_def)

lemma spec_total_length_eq:
  "spec_total_length P F A N S = align_up (80 + 16 * F + 16 * A + 48 * N + S) P"
proof -
  have "align_up (80 + 16 * F) 8 = 80 + 16 * F"
    by (rule align_up_dvd) (presburger, simp)
  moreover have "align_up (80 + 16 * F + 16 * A) 8 = 80 + 16 * F + 16 * A"
    by (rule align_up_dvd) (presburger, simp)
  moreover have "align_up (80 + 16 * F + 16 * A + 48 * N) 1 = 80 + 16 * F + 16 * A + 48 * N"
    by (rule align_up_dvd) simp_all
  moreover have "align_up 8 8 + 72 = (80::nat)" "align_up 80 8 = 80"
    by (simp_all add: align_up_def)
  ultimately show ?thesis
    by (simp add: spec_total_length_def layout_consts Let_def alignof_char_def sizeof_char_def)
qed

lemma spec_table_offsets_eq:
  "spec_table_offsets F A N = [80, 80 + 16 * F, 80 + 16 * F + 16 * A, 80 + 16 * F + 16 * A + 48 * N]"
proof -
  have "align_up (80 + 16 * F) 8 = 80 + 16 * F"
    by (rule align_up_dvd) (presburger, simp)
  moreover have "align_up (80 + 16 * F + 16 * A) 8 = 80 + 16 * F + 16 * A"
    by (rule align_up_dvd) (presburger, simp)
  moreover have "align_up (80 + 16 * F + 16 * A + 48 * N) 1 = 80 + 16 * F + 16 * A + 48 * N"
    by (rule align_up_dvd) simp_all
  moreover have "align_up 8 8 + 72 = (80::nat)" "align_up 80 8 = 80"
    by (simp_all add: align_up_def)
  ultimately show ?thesis
    by (simp add: spec_table_offsets_def layout_consts Let_def alignof_char_def)
qed

lemma layout_words:
  assumes fit: "80 + 16 * unat (numFiles req) + 16 * unat (numAreas req)
                  + 48 * unat (numNodes req) + unat (numStrBytes req) < 2 ^ 64"
  shows "map unat (mountHeader_offsets req) =
           [80, 80 + 16 * unat (numFiles req),
            80 + 16 * unat (numFiles req) + 16 * unat (numAreas req),
            80 + 16 * unat (numFiles req) + 16 * unat (numAreas req)
               + 48 * unat (numNodes req)]"
    and "\<exists>s5. resolveSize env req = roundToBoundary s5 (pageSize env)
           \<and> unat s5 = 80 + 16 * unat (numFiles req) + 16 * unat (numAreas req)
                  + 48 * unat (numNodes req) + unat (numStrBytes req)"
proof -
  define nf na nn ns where "nf = numFiles req" and "na = numAreas req"
    and "nn = numNodes req" and "ns = numStrBytes req"
  define F A N S where "F = unat nf" and "A = unat na" and "N = unat nn" and "S = unat ns"
  have fit': "80 + 16 * F + 16 * A + 48 * N + S < 2 ^ 64"
    using fit by (simp add: F_def A_def N_def S_def nf_def na_def nn_def ns_def)
  have c0: "roundToBoundary 8 8 + 72 = (80 :: 64 word)"
    by (simp add: roundToBoundary_def)
  have cF: "roundToBoundary 80 8 = (80 :: 64 word)"
    by (simp add: roundToBoundary_def)
  have d1: "align_up (80 + 16 * F) 8 = 80 + 16 * F"
    by (rule align_up_dvd) (presburger, simp)
  have d2: "align_up (80 + 16 * F + 16 * A) 8 = 80 + 16 * F + 16 * A"
    by (rule align_up_dvd) (presburger, simp)
  have m1: "unat (16 * nf) = 16 * F"
    using unat_mult_lem[of 16 nf] fit' by (simp add: F_def)
  have a1: "unat (80 + 16 * nf) = 80 + 16 * F"
    using unat_add_lem[of 80 "16 * nf"] m1 fit' by simp
  define oA where "oA = roundToBoundary (80 + 16 * nf) 8"
  have r1: "unat oA = 80 + 16 * F"
    using rtb8[of "80 + 16 * nf"] a1 d1 fit' by (simp add: oA_def)
  have m2: "unat (16 * na) = 16 * A"
    using unat_mult_lem[of 16 na] fit' by (simp add: A_def)
  have a2: "unat (oA + 16 * na) = 80 + 16 * F + 16 * A"
    using unat_add_lem[of oA "16 * na"] r1 m2 fit' by simp
  define oN where "oN = roundToBoundary (oA + 16 * na) 8"
  have r2: "unat oN = 80 + 16 * F + 16 * A"
    using rtb8[of "oA + 16 * na"] a2 d2 fit' by (simp add: oN_def)
  have m3: "unat (48 * nn) = 48 * N"
    using unat_mult_lem[of 48 nn] fit' by (simp add: N_def)
  have a3: "unat (oN + 48 * nn) = 80 + 16 * F + 16 * A + 48 * N"
    using unat_add_lem[of oN "48 * nn"] r2 m3 fit' by simp
  have a4: "unat (oN + 48 * nn + ns) = 80 + 16 * F + 16 * A + 48 * N + S"
    using unat_add_lem[of "oN + 48 * nn" ns] a3 fit' by (simp add: S_def)
  have offs: "mountHeader_offsets req = [80, oA, oN, oN + 48 * nn]"
    by (simp add: mountHeader_offsets_def layout_consts Let_def sizeof_u64_def alignof_char_def
        c0 cF rtb1 oA_def oN_def nf_def na_def nn_def)
  show "map unat (mountHeader_offsets req) =
           [80, 80 + 16 * unat (numFiles req),
            80 + 16 * unat (numFiles req) + 16 * unat (numAreas req),
            80 + 16 * unat (numFiles req) + 16 * unat (numAreas req)
               + 48 * unat (numNodes req)]"
    using r1 r2 a3 by (simp add: offs F_def A_def N_def nf_def na_def nn_def)
  have rs: "resolveSize env req = roundToBoundary (oN + 48 * nn + ns) (pageSize env)"
    by (simp add: resolveSize_def layout_consts Let_def sizeof_u64_def alignof_char_def
        sizeof_char_def c0 cF rtb1 oA_def oN_def nf_def na_def nn_def ns_def)
  show "\<exists>s5. resolveSize env req = roundToBoundary s5 (pageSize env)
           \<and> unat s5 = 80 + 16 * unat (numFiles req) + 16 * unat (numAreas req)
                  + 48 * unat (numNodes req) + unat (numStrBytes req)"
    using rs a4 by (auto simp add: F_def A_def N_def S_def nf_def na_def nn_def ns_def)
qed

lemma resolveSize_spec:
  assumes page: "pageSize env = 2 ^ k" "k < 64"
    and fit: "spec_total_length (2 ^ k) (unat (numFiles req)) (unat (numAreas req))
                (unat (numNodes req)) (unat (numStrBytes req)) < 2 ^ 64"
  shows "unat (resolveSize env req) =
           spec_total_length (2 ^ k) (unat (numFiles req)) (unat (numAreas req))
             (unat (numNodes req)) (unat (numStrBytes req))"
proof -
  let ?T = "80 + 16 * unat (numFiles req) + 16 * unat (numAreas req)
              + 48 * unat (numNodes req) + unat (numStrBytes req)"
  have fitA: "align_up ?T (2 ^ k) < 2 ^ 64"
    using fit by (simp add: spec_total_length_eq)
  have "?T \<le> align_up ?T (2 ^ k)"
    by (rule align_up_ge) simp
  with fitA have fitT: "?T < 2 ^ 64" by linarith
  from layout_words(2)[OF fitT, of env] obtain s5 where
    s5: "resolveSize env req = roundToBoundary s5 (pageSize env)" "unat s5 = ?T"
    by blast
  show ?thesis
    using rtb_align_up[of k s5] page fitA s5 by (simp add: spec_total_length_eq)
qed

lemma resolveSize_page_multiple:
  assumes page: "pageSize env = 2 ^ k" "k < 64"
  shows "unat (pageSize env) dvd unat (resolveSize env req)"
proof -
  have m: "(2 ^ k - 1 :: 64 word) = mask k"
    by (simp add: mask_eq_decr_exp)
  have "unat (roundToBoundary s (2 ^ k)) = (unat (s + (2 ^ k - 1)) div 2 ^ k) * 2 ^ k" for s
    using and_not_mask_unat[of "s + (2 ^ k - 1)" k] by (simp add: roundToBoundary_def m)
  then have "2 ^ k dvd unat (roundToBoundary s (2 ^ k))" for s
    by simp
  then show ?thesis
    using page by (simp add: resolveSize_def Let_def unat_pow2)
qed

lemma spec_total_ge_80:
  assumes "0 < P"
  shows "80 \<le> spec_total_length P F A N S"
proof -
  have "80 + 16 * F + 16 * A + 48 * N + S \<le> align_up (80 + 16 * F + 16 * A + 48 * N + S) P"
    using assms by (rule align_up_ge)
  then show ?thesis by (simp add: spec_total_length_eq)
qed

lemma init_header:
  assumes req: "numFiles req \<noteq> 0" "numAreas req \<noteq> 0" "numNodes req \<noteq> 0"
      "numStrBytes req \<noteq> 0"
    and fresh: "files w p = None"
    and env: "open_errno env = None" "\<not> ftruncate_fails env" "\<not> mmap_fails env"
    and big: "80 \<le> unat (resolveSize env req)"
  shows "\<exists>w1 bs. ufsHeaderInit env (Some p) req w = Inr (Ptr (length (mappings w)), w1)
           \<and> files w1 p = Some bs \<and> length bs = unat (resolveSize env req)
           \<and> read_header w1 (Ptr (length (mappings w)))
               = Inr \<lparr>magicNumber = UFS_MAGIC_NUMBER, version = UFS_INDEX_VERSION,
                      sizes = [numFiles req, numAreas req, numNodes req, numStrBytes req],
                      offsets = mountHeader_offsets req\<rparr>"
proof -
  define n where "n = unat (resolveSize env req)"
  define a where "a = length (mappings w)"
  define B0 where "B0 = upd_bytes 0 (le_bytes 8 n) (replicate n 0)"
  define B1 where "B1 = mountHeader_bytes req B0"
  define w1 where "w1 = w\<lparr>files := (files w)(p \<mapsto> B1),
                mappings := mappings w @ [Some (p, n)],
                ufsErrno := UFS_NO_ERROR,
                syscalls := syscalls w @ [SysAccess p, SysSysconf, SysOpen p,
                   SysFtruncate p n, SysMmap p n, SysClose p]\<rparr>"
  have n80: "80 \<le> n" using big by (simp add: n_def)
  have lB0: "length B0 = n"
    using n80 by (simp add: B0_def length_upd_bytes length_le_bytes)
  have lB1: "length B1 = n"
    using n80 lB0 by (simp add: B1_def mountHeader_bytes_fields)
  have init: "ufsHeaderInit env (Some p) req w = Inr (Ptr a, w1)"
    using ufsHeaderInit_ok[OF req fresh env big]
    by (simp add: w1_def B1_def B0_def n_def a_def)
  have fld1: "sub_bytes 8 4 B1 = le_bytes 4 (unat UFS_MAGIC_NUMBER)"
      "sub_bytes 12 4 B1 = le_bytes 4 (unat UFS_INDEX_VERSION)"
      "sub_bytes 16 8 B1 = le_bytes 8 (unat (numFiles req))"
      "sub_bytes 24 8 B1 = le_bytes 8 (unat (numAreas req))"
      "sub_bytes 32 8 B1 = le_bytes 8 (unat (numNodes req))"
      "sub_bytes 40 8 B1 = le_bytes 8 (unat (numStrBytes req))"
      "sub_bytes 48 8 B1 = le_bytes 8 (unat (mountHeader_offsets req ! 0))"
      "sub_bytes 56 8 B1 = le_bytes 8 (unat (mountHeader_offsets req ! 1))"
      "sub_bytes 64 8 B1 = le_bytes 8 (unat (mountHeader_offsets req ! 2))"
      "sub_bytes 72 8 B1 = le_bytes 8 (unat (mountHeader_offsets req ! 3))"
    using n80 lB0 unfolding B1_def by (simp_all add: mountHeader_bytes_fields)
  have os: "mountHeader_offsets req = [mountHeader_offsets req ! 0, mountHeader_offsets req ! 1,
      mountHeader_offsets req ! 2, mountHeader_offsets req ! 3]"
    by (simp add: mountHeader_offsets_def Let_def)
  have rh1: "read_header w1 (Ptr a)
               = Inr \<lparr>magicNumber = UFS_MAGIC_NUMBER, version = UFS_INDEX_VERSION,
                      sizes = [numFiles req, numAreas req, numNodes req, numStrBytes req],
                      offsets = mountHeader_offsets req\<rparr>"
    using read_header_ok[of a w1 p n B1] n80 lB1 os
    by (simp add: w1_def a_def nth_append fld1 le_val_le_bytes_u32 le_val_le_bytes_u64)
  have "files w1 p = Some B1" by (simp add: w1_def)
  with init rh1 lB1 show ?thesis
    unfolding a_def n_def by blast
qed

lemma ex_resolveSize: "resolveSize ex_env ex_request = 4096"
  by (simp add: resolveSize_def ex_env_def ex_request_def layout_consts roundToBoundary_def
      sizeof_u64_def alignof_char_def sizeof_char_def Let_def)

lemma ex_resolveSize_wrap: "resolveSize ex_env ex_request_wrap = 0"
  by (simp add: resolveSize_def ex_env_def ex_request_wrap_def layout_consts
      roundToBoundary_def sizeof_u64_def alignof_char_def sizeof_char_def Let_def)

lemma ex_resolveSize_huge: "resolveSize ex_env ex_request_huge = 4096"
  by (simp add: resolveSize_def ex_env_def ex_request_huge_def layout_consts
      roundToBoundary_def sizeof_u64_def alignof_char_def sizeof_char_def Let_def)

lemma ex_offsets_huge: "mountHeader_offsets ex_request_huge = [80, 96, 112, 160]"
  by (simp add: mountHeader_offsets_def ex_request_huge_def layout_consts roundToBoundary_def
      sizeof_u64_def alignof_char_def Let_def)


section \<open>The status word after each operation\<close>

lemma ufsImageOpen_fail:
  assumes "\<not> (\<exists>p bs. path = Some p \<and> files w p = Some bs \<and> 8 \<le> length bs
              \<and> open_errno env = None \<and> \<not> fstat_fails env \<and> \<not> mmap_fails env)"
  shows "\<exists>w'. ufsImageOpen env path w = Inr (NULL, w')"
proof (cases path)
  case None
  then show ?thesis by (simp add: ufsImageOpen_def)
next
  case (Some p)
  show ?thesis
  proof (cases "files w p")
    case None
    with Some show ?thesis by (simp add: ufsImageOpen_def emit_def)
  next
    case (Some bs)
    with \<open>path = Some p\<close> assms
    have "length bs < 8 \<or> open_errno env \<noteq> None \<or> fstat_fails env \<or> mmap_fails env"
      by auto
    with Some \<open>path = Some p\<close> show ?thesis
      by (auto simp add: ufsImageOpen_def emit_def Let_def)
  qed
qed

lemma ufsImageOpen_errno_indep:
  "ufsImageOpen env path (w\<lparr>ufsErrno := e\<rparr>) = ufsImageOpen env path w"
proof (cases "\<exists>p bs. path = Some p \<and> files w p = Some bs \<and> 8 \<le> length bs
              \<and> open_errno env = None \<and> \<not> fstat_fails env \<and> \<not> mmap_fails env")
  case True
  then obtain p bs where p: "path = Some p" and f: "files w p = Some bs"
    and l: "8 \<le> length bs"
    and env: "open_errno env = None" "\<not> fstat_fails env" "\<not> mmap_fails env"
    by blast
  have f': "files (w\<lparr>ufsErrno := e\<rparr>) p = Some bs"
    using f by simp
  show ?thesis
    unfolding p ufsImageOpen_ok[OF f l env] ufsImageOpen_ok[OF f' l env] by simp
next
  case False
  then show ?thesis
    by (cases path; cases "files w (the path)")
       (auto simp add: ufsImageOpen_def emit_def Let_def)
qed

lemma ufsImageCreate_errno_indep:
  assumes "\<not> ftruncate_fails env"
  shows "ufsImageCreate env path sz (w\<lparr>ufsErrno := e\<rparr>) = ufsImageCreate env path sz w"
proof (cases "\<exists>p. path = Some p \<and> \<not> sz < 8 \<and> open_errno env = None \<and> \<not> mmap_fails env")
  case True
  then obtain p where p: "path = Some p" and ge8: "\<not> sz < 8"
    and env: "open_errno env = None" "\<not> mmap_fails env"
    by blast
  show ?thesis
    unfolding p ufsImageCreate_ok[OF ge8 env(1) assms env(2)] by simp
next
  case False
  then show ?thesis
    using assms
    by (cases path)
       (auto simp add: ufsImageCreate_def emit_def sys_creat_def sys_ftruncate_def Let_def
          split: option.splits)
qed

lemma ufsHeaderInit_errno_indep:
  assumes "\<not> ftruncate_fails env"
  shows "ufsHeaderInit env path req (w\<lparr>ufsErrno := e\<rparr>) = ufsHeaderInit env path req w"
proof (cases path)
  case None
  then show ?thesis by (simp add: ufsHeaderInit_def)
next
  case (Some p)
  have "emit SysSysconf (emit (SysAccess p) (w\<lparr>ufsErrno := e\<rparr>))
          = (emit SysSysconf (emit (SysAccess p) w))\<lparr>ufsErrno := e\<rparr>"
    by (simp add: emit_def)
  then have "ufsImageCreate env (Some p) (resolveSize env req)
               (emit SysSysconf (emit (SysAccess p) (w\<lparr>ufsErrno := e\<rparr>)))
           = ufsImageCreate env (Some p) (resolveSize env req)
               (emit SysSysconf (emit (SysAccess p) w))"
    by (simp only: ufsImageCreate_errno_indep[OF assms])
  then show ?thesis
    using Some by (simp add: ufsHeaderInit_def sys_access_def emit_def Let_def)
qed

lemma ufsImageOpen_nonnull_errno:
  assumes "ufsImageOpen env path w = Inr (r, w')" "r \<noteq> NULL"
  shows "ufsErrno w' = UFS_NO_ERROR"
proof -
  have "\<exists>p bs. path = Some p \<and> files w p = Some bs \<and> 8 \<le> length bs
              \<and> open_errno env = None \<and> \<not> fstat_fails env \<and> \<not> mmap_fails env"
  proof (rule ccontr)
    assume "\<not> (\<exists>p bs. path = Some p \<and> files w p = Some bs \<and> 8 \<le> length bs
              \<and> open_errno env = None \<and> \<not> fstat_fails env \<and> \<not> mmap_fails env)"
    from ufsImageOpen_fail[OF this] obtain w'' where
      "ufsImageOpen env path w = Inr (NULL, w'')" by (elim exE)
    with assms show False by simp
  qed
  then obtain p bs where p: "path = Some p" and f: "files w p = Some bs"
    and l: "8 \<le> length bs"
    and env: "open_errno env = None" "\<not> fstat_fails env" "\<not> mmap_fails env"
    by blast
  from assms(1) show ?thesis
    unfolding p ufsImageOpen_ok[OF f l env] by auto
qed

lemma ufsImageCreate_nonnull_errno:
  assumes "ufsImageCreate env path sz w = Inr (r, w')" "r \<noteq> NULL"
  shows "ufsErrno w' = UFS_NO_ERROR"
proof -
  from assms obtain p where p: "path = Some p"
    by (cases path) (auto simp add: ufsImageCreate_def)
  have "\<not> (sz < 8 \<or> open_errno env \<noteq> None \<or> ftruncate_fails env \<or> mmap_fails env)"
  proof
    assume "sz < 8 \<or> open_errno env \<noteq> None \<or> ftruncate_fails env \<or> mmap_fails env"
    from ufsImageCreate_fail[OF this, of p w] obtain w'' where
      "ufsImageCreate env (Some p) sz w = Inr (NULL, w'')" by blast
    with assms p show False by simp
  qed
  then have ge8: "\<not> sz < 8" and env: "open_errno env = None" "\<not> ftruncate_fails env"
      "\<not> mmap_fails env"
    by auto
  from assms(1) show ?thesis
    unfolding p ufsImageCreate_ok[OF ge8 env] by auto
qed

lemma ufsHeaderInit_nonnull_errno:
  assumes "ufsHeaderInit env path req w = Inr (r, w')" "r \<noteq> NULL"
  shows "ufsErrno w' = UFS_NO_ERROR"
proof -
  from ufsHeaderInit_nonnull[OF assms] obtain p where p: "path = Some p"
    and req: "numFiles req \<noteq> 0" "numAreas req \<noteq> 0" "numNodes req \<noteq> 0"
      "numStrBytes req \<noteq> 0"
    and fresh: "files w p = None"
    and env: "open_errno env = None" "\<not> ftruncate_fails env" "\<not> mmap_fails env"
    and big: "80 \<le> unat (resolveSize env req)"
    by blast
  from assms(1) show ?thesis
    unfolding p ufsHeaderInit_ok[OF req fresh env big] by auto
qed

lemma ufsImageSync_errno:
  assumes "ufsImageSync env img w = Inr (ok, w')"
  shows "ufsErrno w' = (if ok then ufsErrno w else UFS_IMAGE_COULD_NOT_SYNC)"
proof -
  from assms have
    "bindf (load_u64 w img 0) (\<lambda>sz.
       let w1 = emit (SysMsync (ptr_addr img) (unat sz)) w in
       if msync_fails env then
         Inr (False, (emit (SysPerror ''msync'') w1)\<lparr>ufsErrno := UFS_IMAGE_COULD_NOT_SYNC\<rparr>)
       else Inr (True, w1)) = Inr (ok, w')"
    by (simp add: ufsImageSync_def)
  from bindf_InrD[OF this] show ?thesis
    by (cases "msync_fails env") (auto simp add: emit_def Let_def)
qed

lemma sys_munmap_errno:
  assumes "sys_munmap img n w = Inr w'"
  shows "ufsErrno w' = ufsErrno w"
proof (cases img)
  case NULL
  with assms show ?thesis by (simp add: sys_munmap_def)
next
  case (Ptr a)
  with assms show ?thesis
    by (cases "mappings w ! a")
       (auto simp add: sys_munmap_def split: if_splits)
qed

lemma ufsImageFree_errno:
  assumes "ufsImageFree img w = Inr w'"
  shows "ufsErrno w' = ufsErrno w"
proof -
  from assms have "bindf (load_u64 w img 0) (\<lambda>sz.
       sys_munmap img (unat sz) (emit (SysMunmap (ptr_addr img) (unat sz)) w)) = Inr w'"
    by (simp add: ufsImageFree_def)
  from bindf_InrD[OF this] obtain sz :: "64 word" where
    "sys_munmap img (unat sz) (emit (SysMunmap (ptr_addr img) (unat sz)) w)
       = (Inr w' :: fault + world)"
    by (elim exE conjE)
  from sys_munmap_errno[OF this] show ?thesis
    by (simp add: emit_def)
qed

lemma ufsHeaderValidate_errno:
  assumes "ufsHeaderValidate img w = Inr (r, w')"
  shows "(r \<noteq> NULL \<longrightarrow> ufsErrno w' = ufsErrno w)
       \<and> (r = NULL \<longrightarrow> ufsErrno w' = UFS_IMAGE_IS_CORRUPTED
                        \<or> ufsErrno w' = UFS_VERSION_MISMATCH)"
proof -
  from assms have
    "bindf (load_u32 w img (8 + off_magicNumber)) (\<lambda>magic.
        if magic \<noteq> UFS_MAGIC_NUMBER then Inr (NULL, w\<lparr>ufsErrno := UFS_IMAGE_IS_CORRUPTED\<rparr>)
        else
          bindf (load_u32 w img (8 + off_version)) (\<lambda>ver.
            if ver \<noteq> UFS_INDEX_VERSION then Inr (NULL, w\<lparr>ufsErrno := UFS_VERSION_MISMATCH\<rparr>)
            else Inr (img, w))) = Inr (r, w')"
    by (simp add: ufsHeaderValidate_def ufsHeaderGet_eq)
  from bindf_InrD[OF this] obtain magic where
    m: "load_u32 w img (8 + off_magicNumber) = Inr magic"
    and c: "(if magic \<noteq> UFS_MAGIC_NUMBER
         then Inr (NULL, w\<lparr>ufsErrno := UFS_IMAGE_IS_CORRUPTED\<rparr>)
         else bindf (load_u32 w img (8 + off_version)) (\<lambda>ver.
            if ver \<noteq> UFS_INDEX_VERSION then Inr (NULL, w\<lparr>ufsErrno := UFS_VERSION_MISMATCH\<rparr>)
            else Inr (img, w))) = Inr (r, w')"
    by (elim exE conjE)
  have nn: "img \<noteq> NULL"
    using m by (auto simp add: load_u32_def load_def img_file_def bindf_def)
  show ?thesis
  proof (cases "magic \<noteq> UFS_MAGIC_NUMBER")
    case True
    with c show ?thesis by auto
  next
    case False
    with c have "bindf (load_u32 w img (8 + off_version)) (\<lambda>ver.
            if ver \<noteq> UFS_INDEX_VERSION then Inr (NULL, w\<lparr>ufsErrno := UFS_VERSION_MISMATCH\<rparr>)
            else Inr (img, w)) = Inr (r, w')"
      by simp
    from bindf_InrD[OF this] obtain ver where
      "(if ver \<noteq> UFS_INDEX_VERSION then Inr (NULL, w\<lparr>ufsErrno := UFS_VERSION_MISMATCH\<rparr>)
            else Inr (img, w)) = (Inr (r, w') :: fault + ufsImagePtr \<times> world)"
      by (elim exE conjE)
    with nn show ?thesis by (cases "ver \<noteq> UFS_INDEX_VERSION") auto
  qed
qed

section \<open>Opening an image\<close>

text \<open>
  Claim C9: \<open>ufsImageOpen\<close> called with a null file path returns null and sets the
  status word to \<open>UFS_BAD_CALL\<close> before any access to the file system: whatever the
  operating system would answer, no system call is made, and nothing but the status word
  changes.
\<close>

theorem ufsImageOpen_null_path:
  "ufsImageOpen env None w = Inr (NULL, w\<lparr>ufsErrno := UFS_BAD_CALL\<rparr>)"
  by (simp add: ufsImageOpen_def)

text \<open>The same at the concrete environment, in the world without files.\<close>

theorem ufsImageOpen_null_path_witness:
  "ufsImageOpen ex_env None ex_world = Inr (NULL, ex_world\<lparr>ufsErrno := UFS_BAD_CALL\<rparr>)"
  by (rule ufsImageOpen_null_path)

text \<open>
  Claim C6: \<open>ufsImageOpen\<close> on a path returns null with status
  \<open>UFS_IMAGE_DOES_NOT_EXIST\<close> when no file exists there; null with status
  \<open>UFS_IMAGE_TOO_SMALL\<close> when the file exists and is shorter than 8 bytes; null with
  status \<open>UFS_UNKNOWN_ERROR\<close> when \<open>open\<close>, \<open>fstat\<close> or \<open>mmap\<close> fails;
  and otherwise it maps the whole file, overwrites its first 8 bytes with the length of the
  file, leaves the other bytes as they are and sets \<open>UFS_NO_ERROR\<close>. The failures leave the
  files and the mappings as they are. (The two statuses \<open>UFS_IMAGE_TOO_SMALL\<close> and
  \<open>UFS_UNKNOWN_ERROR\<close> are the same number, so the second and the third case do not
  contradict each other where both apply.)
\<close>

theorem ufsImageOpen_outcomes:
  "(files w p = None \<longrightarrow>
      ufsImageOpen env (Some p) w
        = Inr (NULL, w\<lparr>ufsErrno := UFS_IMAGE_DOES_NOT_EXIST,
                       syscalls := syscalls w @ [SysAccess p]\<rparr>))
   \<and> (files w p = Some bs \<and> length bs < 8 \<longrightarrow>
      (\<exists>w'. ufsImageOpen env (Some p) w = Inr (NULL, w')
         \<and> ufsErrno w' = UFS_IMAGE_TOO_SMALL
         \<and> files w' = files w \<and> mappings w' = mappings w))
   \<and> (files w p = Some bs
        \<and> (open_errno env \<noteq> None \<or> fstat_fails env \<or> mmap_fails env) \<longrightarrow>
      (\<exists>w'. ufsImageOpen env (Some p) w = Inr (NULL, w')
         \<and> ufsErrno w' = UFS_UNKNOWN_ERROR
         \<and> files w' = files w \<and> mappings w' = mappings w))
   \<and> (files w p = Some bs \<and> 8 \<le> length bs
        \<and> open_errno env = None \<and> \<not> fstat_fails env \<and> \<not> mmap_fails env \<longrightarrow>
      (\<exists>a w'. ufsImageOpen env (Some p) w = Inr (Ptr a, w')
         \<and> ufsErrno w' = UFS_NO_ERROR
         \<and> a < length (mappings w') \<and> mappings w' ! a = Some (p, length bs)
         \<and> files w' = (files w)(p \<mapsto>
              le_bytes 8 (unat (of_nat (length bs) :: 64 word)) @ drop 8 bs)
         \<and> load_u64 w' (Ptr a) 0 = Inr (of_nat (length bs))))"
proof (intro conjI impI)
  assume "files w p = None"
  then show "ufsImageOpen env (Some p) w
        = Inr (NULL, w\<lparr>ufsErrno := UFS_IMAGE_DOES_NOT_EXIST,
                       syscalls := syscalls w @ [SysAccess p]\<rparr>)"
    by (simp add: ufsImageOpen_def emit_def)
next
  assume "files w p = Some bs \<and> length bs < 8"
  then show "\<exists>w'. ufsImageOpen env (Some p) w = Inr (NULL, w')
         \<and> ufsErrno w' = UFS_IMAGE_TOO_SMALL
         \<and> files w' = files w \<and> mappings w' = mappings w"
    by (simp add: ufsImageOpen_def emit_def Let_def UFS_IMAGE_TOO_SMALL_def
        UFS_UNKNOWN_ERROR_def)
next
  assume "files w p = Some bs
        \<and> (open_errno env \<noteq> None \<or> fstat_fails env \<or> mmap_fails env)"
  then show "\<exists>w'. ufsImageOpen env (Some p) w = Inr (NULL, w')
         \<and> ufsErrno w' = UFS_UNKNOWN_ERROR
         \<and> files w' = files w \<and> mappings w' = mappings w"
    by (auto simp add: ufsImageOpen_def emit_def Let_def UFS_IMAGE_TOO_SMALL_def
        UFS_UNKNOWN_ERROR_def)
next
  assume a: "files w p = Some bs \<and> 8 \<le> length bs
        \<and> open_errno env = None \<and> \<not> fstat_fails env \<and> \<not> mmap_fails env"
  then have op: "ufsImageOpen env (Some p) w =
         Inr (Ptr (length (mappings w)),
              w\<lparr>files := (files w)(p \<mapsto> upd_bytes 0
                          (le_bytes 8 (unat (of_nat (length bs) :: 64 word))) bs),
                mappings := mappings w @ [Some (p, length bs)],
                ufsErrno := UFS_NO_ERROR,
                syscalls := syscalls w @ [SysAccess p, SysOpen p, SysFstat p,
                                          SysMmap p (length bs), SysClose p]\<rparr>)"
    by (intro ufsImageOpen_ok) simp_all
  show "\<exists>a w'. ufsImageOpen env (Some p) w = Inr (Ptr a, w')
         \<and> ufsErrno w' = UFS_NO_ERROR
         \<and> a < length (mappings w') \<and> mappings w' ! a = Some (p, length bs)
         \<and> files w' = (files w)(p \<mapsto>
              le_bytes 8 (unat (of_nat (length bs) :: 64 word)) @ drop 8 bs)
         \<and> load_u64 w' (Ptr a) 0 = Inr (of_nat (length bs))"
    using a
    by (simp add: op upd_bytes_def length_le_bytes load_u64_def load_def img_file_def
        bindf_def sub_bytes_def le_val_le_bytes_u64)
qed

text \<open>
  The four cases at concrete inputs: no file; a file of 4 bytes; a file of 16 bytes when
  \<open>mmap\<close> fails; a file of 16 bytes when every call succeeds.
\<close>

theorem ufsImageOpen_outcomes_witness:
  "ufsImageOpen ex_env (Some ''img'') ex_world
     = Inr (NULL, ex_world\<lparr>ufsErrno := UFS_IMAGE_DOES_NOT_EXIST,
                          syscalls := syscalls ex_world @ [SysAccess ''img'']\<rparr>)
   \<and> (\<exists>w'. ufsImageOpen ex_env (Some ''img'') (ex_world_file [1, 2, 3, 4]) = Inr (NULL, w')
         \<and> ufsErrno w' = UFS_IMAGE_TOO_SMALL
         \<and> files w' = files (ex_world_file [1, 2, 3, 4])
         \<and> mappings w' = mappings (ex_world_file [1, 2, 3, 4]))
   \<and> (\<exists>w'. ufsImageOpen (ex_env\<lparr>mmap_fails := True\<rparr>) (Some ''img'')
               (ex_world_file (replicate 16 0)) = Inr (NULL, w')
         \<and> ufsErrno w' = UFS_UNKNOWN_ERROR
         \<and> files w' = files (ex_world_file (replicate 16 0))
         \<and> mappings w' = mappings (ex_world_file (replicate 16 0)))
   \<and> (\<exists>a w'. ufsImageOpen ex_env (Some ''img'') (ex_world_file (replicate 16 0))
                 = Inr (Ptr a, w')
         \<and> ufsErrno w' = UFS_NO_ERROR
         \<and> a < length (mappings w') \<and> mappings w' ! a = Some (''img'', 16)
         \<and> files w' = (files (ex_world_file (replicate 16 0)))(''img'' \<mapsto>
              le_bytes 8 (unat (16 :: 64 word)) @ replicate 8 0)
         \<and> load_u64 w' (Ptr a) 0 = Inr 16)"
  using ufsImageOpen_outcomes[where w = ex_world and p = "''img''" and env = ex_env]
    ufsImageOpen_outcomes[where w = "ex_world_file [1, 2, 3, 4]" and p = "''img''"
      and env = ex_env and bs = "[1, 2, 3, 4]"]
    ufsImageOpen_outcomes[where w = "ex_world_file (replicate 16 0)" and p = "''img''"
      and env = "ex_env\<lparr>mmap_fails := True\<rparr>" and bs = "replicate 16 0"]
    ufsImageOpen_outcomes[where w = "ex_world_file (replicate 16 0)" and p = "''img''"
      and env = ex_env and bs = "replicate 16 0"]
  by (simp add: ex_world_def ex_world_file_def ex_env_def)


section \<open>Calls that are rejected\<close>

text \<open>
  Claim C7: \<open>ufsHeaderInit\<close> returns null with status \<open>UFS_BAD_CALL\<close>, creates no
  file and changes neither the files nor the mappings, whenever the path is null, or one of
  the four requested capacities is zero, or a file already exists at the path.
  \<open>ufsImageCreate\<close> returns null with status \<open>UFS_BAD_CALL\<close> when its path is null or
  its size is less than 8, and with \<open>UFS_CANT_CREATE_FILE\<close> when \<open>open\<close> fails with
  \<open>EACCES\<close>; the files and the mappings are then as before.
\<close>

theorem init_and_create_reject:
  "(path = None \<or> numFiles req = 0 \<or> numAreas req = 0 \<or> numNodes req = 0
      \<or> numStrBytes req = 0 \<longrightarrow>
      ufsHeaderInit env path req w = Inr (NULL, w\<lparr>ufsErrno := UFS_BAD_CALL\<rparr>))
   \<and> (path = Some p \<and> files w p \<noteq> None \<longrightarrow>
      (\<exists>w'. ufsHeaderInit env path req w = Inr (NULL, w')
         \<and> ufsErrno w' = UFS_BAD_CALL
         \<and> files w' = files w \<and> mappings w' = mappings w))
   \<and> (path = None \<or> sz < 8 \<longrightarrow>
      ufsImageCreate env path sz w = Inr (NULL, w\<lparr>ufsErrno := UFS_BAD_CALL\<rparr>))
   \<and> (path = Some p \<and> \<not> sz < 8 \<and> open_errno env = Some EACCES \<longrightarrow>
      (\<exists>w'. ufsImageCreate env path sz w = Inr (NULL, w')
         \<and> ufsErrno w' = UFS_CANT_CREATE_FILE
         \<and> files w' = files w \<and> mappings w' = mappings w))"
proof (intro conjI impI)
  assume "path = None \<or> numFiles req = 0 \<or> numAreas req = 0 \<or> numNodes req = 0
      \<or> numStrBytes req = 0"
  then show "ufsHeaderInit env path req w = Inr (NULL, w\<lparr>ufsErrno := UFS_BAD_CALL\<rparr>)"
    by (cases path) (auto simp add: ufsHeaderInit_def)
next
  assume "path = Some p \<and> files w p \<noteq> None"
  then show "\<exists>w'. ufsHeaderInit env path req w = Inr (NULL, w')
         \<and> ufsErrno w' = UFS_BAD_CALL
         \<and> files w' = files w \<and> mappings w' = mappings w"
    by (auto simp add: ufsHeaderInit_def sys_access_def emit_def Let_def)
next
  assume "path = None \<or> sz < 8"
  then show "ufsImageCreate env path sz w = Inr (NULL, w\<lparr>ufsErrno := UFS_BAD_CALL\<rparr>)"
    by (cases path) (auto simp add: ufsImageCreate_def)
next
  assume "path = Some p \<and> \<not> sz < 8 \<and> open_errno env = Some EACCES"
  then show "\<exists>w'. ufsImageCreate env path sz w = Inr (NULL, w')
         \<and> ufsErrno w' = UFS_CANT_CREATE_FILE
         \<and> files w' = files w \<and> mappings w' = mappings w"
    by (simp add: ufsImageCreate_def emit_def Let_def)
qed

text \<open>
  The cases at concrete inputs: a null path; a request with no nodes; a path where a file
  exists; a size of 4; a directory in which the file may not be created.
\<close>

theorem init_and_create_reject_witness:
  "ufsHeaderInit ex_env None ufsDefaultSizeRequest ex_world
     = Inr (NULL, ex_world\<lparr>ufsErrno := UFS_BAD_CALL\<rparr>)
   \<and> ufsHeaderInit ex_env (Some ''img'') (ex_request\<lparr>numNodes := 0\<rparr>) ex_world
     = Inr (NULL, ex_world\<lparr>ufsErrno := UFS_BAD_CALL\<rparr>)
   \<and> (\<exists>w'. ufsHeaderInit ex_env (Some ''img'') ex_request (ex_world_file [1, 2, 3, 4])
               = Inr (NULL, w')
         \<and> ufsErrno w' = UFS_BAD_CALL
         \<and> files w' = files (ex_world_file [1, 2, 3, 4])
         \<and> mappings w' = mappings (ex_world_file [1, 2, 3, 4]))
   \<and> ufsImageCreate ex_env (Some ''img'') 4 ex_world
     = Inr (NULL, ex_world\<lparr>ufsErrno := UFS_BAD_CALL\<rparr>)
   \<and> (\<exists>w'. ufsImageCreate (ex_env\<lparr>open_errno := Some EACCES\<rparr>) (Some ''img'') 128 ex_world
               = Inr (NULL, w')
         \<and> ufsErrno w' = UFS_CANT_CREATE_FILE
         \<and> files w' = files ex_world \<and> mappings w' = mappings ex_world)"
  using init_and_create_reject[where path = None and req = ufsDefaultSizeRequest
      and env = ex_env and w = ex_world]
    init_and_create_reject[where path = "Some ''img''" and req = "ex_request\<lparr>numNodes := 0\<rparr>"
      and env = ex_env and w = ex_world]
    init_and_create_reject[where path = "Some ''img''" and req = ex_request and p = "''img''"
      and env = ex_env and w = "ex_world_file [1, 2, 3, 4]"]
    init_and_create_reject[where path = "Some ''img''" and sz = 4 and env = ex_env
      and w = ex_world]
    init_and_create_reject[where path = "Some ''img''" and p = "''img''" and sz = 128
      and env = "ex_env\<lparr>open_errno := Some EACCES\<rparr>" and w = ex_world]
  by (simp add: ex_world_file_def ex_request_def ex_env_def)


section \<open>Validating a header\<close>

text \<open>
  Claim C2: for every image in which the magic number and the version of the header can be
  read, \<open>ufsHeaderValidate\<close> returns the image, with its bytes and the mappings as they
  were, if and only if the magic number is \<open>UFS_MAGIC_NUMBER\<close> and the version is
  \<open>UFS_INDEX_VERSION\<close>. With a wrong magic number it returns null with status
  \<open>UFS_IMAGE_IS_CORRUPTED\<close>; with the right magic number and a wrong version it returns
  null with status \<open>UFS_VERSION_MISMATCH\<close>. Nothing else in the image matters: any other
  image with the same magic number and version has the same outcome.
\<close>

theorem validate_decides_on_magic_and_version:
  assumes m: "load_u32 w (fst (ufsHeaderGet img)) (snd (ufsHeaderGet img) + off_magicNumber)
                = Inr magic"
    and v: "load_u32 w (fst (ufsHeaderGet img)) (snd (ufsHeaderGet img) + off_version)
                = Inr ver"
  shows "\<exists>r w'. ufsHeaderValidate img w = Inr (r, w')
           \<and> files w' = files w \<and> mappings w' = mappings w
           \<and> (r = img \<longleftrightarrow> magic = UFS_MAGIC_NUMBER \<and> ver = UFS_INDEX_VERSION)
           \<and> (magic \<noteq> UFS_MAGIC_NUMBER \<longrightarrow>
                r = NULL \<and> ufsErrno w' = UFS_IMAGE_IS_CORRUPTED)
           \<and> (magic = UFS_MAGIC_NUMBER \<and> ver \<noteq> UFS_INDEX_VERSION \<longrightarrow>
                r = NULL \<and> ufsErrno w' = UFS_VERSION_MISMATCH)
           \<and> (\<forall>w2 img2.
                load_u32 w2 (fst (ufsHeaderGet img2)) (snd (ufsHeaderGet img2) + off_magicNumber)
                  = Inr magic
                \<and> load_u32 w2 (fst (ufsHeaderGet img2)) (snd (ufsHeaderGet img2) + off_version)
                  = Inr ver \<longrightarrow>
                (\<exists>r2 w2'. ufsHeaderValidate img2 w2 = Inr (r2, w2')
                   \<and> (r2 = img2 \<longleftrightarrow> r = img)
                   \<and> (r2 = NULL \<longleftrightarrow> r = NULL)
                   \<and> (r = NULL \<longrightarrow> ufsErrno w2' = ufsErrno w')))"
proof -
  have nn: "img \<noteq> NULL"
    using m by (auto simp add: ufsHeaderGet_eq load_u32_def load_def img_file_def bindf_def)
  have nn2: "img2 \<noteq> NULL"
    if "load_u32 w2 (fst (ufsHeaderGet img2)) (snd (ufsHeaderGet img2) + off_magicNumber)
          = Inr magic" for w2 img2
    using that by (auto simp add: ufsHeaderGet_eq load_u32_def load_def img_file_def bindf_def)
  show ?thesis
    using m v nn nn2
    by (auto simp add: ufsHeaderValidate_def ufsHeaderGet_eq bindf_def)
qed

text \<open>
  An image with a good header is returned; one with magic number 123 is corrupted; one
  with version 0 is a version mismatch.
\<close>

theorem validate_decides_on_magic_and_version_witness:
  "(\<exists>w'. ufsHeaderValidate (Ptr 0)
            (ex_world_mapped (replicate 8 0 @ le_bytes 4 (unat UFS_MAGIC_NUMBER)
                                @ le_bytes 4 (unat UFS_INDEX_VERSION)))
          = Inr (Ptr 0, w'))
   \<and> (\<exists>w'. ufsHeaderValidate (Ptr 0)
            (ex_world_mapped (replicate 8 0 @ le_bytes 4 (unat (123 :: 32 word))
                                @ le_bytes 4 (unat UFS_INDEX_VERSION)))
          = Inr (NULL, w') \<and> ufsErrno w' = UFS_IMAGE_IS_CORRUPTED)
   \<and> (\<exists>w'. ufsHeaderValidate (Ptr 0)
            (ex_world_mapped (replicate 8 0 @ le_bytes 4 (unat UFS_MAGIC_NUMBER)
                                @ le_bytes 4 (unat (0 :: 32 word))))
          = Inr (NULL, w') \<and> ufsErrno w' = UFS_VERSION_MISMATCH)"
proof (intro conjI)
  show "\<exists>w'. ufsHeaderValidate (Ptr 0)
            (ex_world_mapped (replicate 8 0 @ le_bytes 4 (unat UFS_MAGIC_NUMBER)
                                @ le_bytes 4 (unat UFS_INDEX_VERSION)))
          = Inr (Ptr 0, w')"
    using validate_decides_on_magic_and_version[OF ex_header_loads,
        of UFS_MAGIC_NUMBER UFS_INDEX_VERSION]
    by (elim exE conjE) simp
  show "\<exists>w'. ufsHeaderValidate (Ptr 0)
            (ex_world_mapped (replicate 8 0 @ le_bytes 4 (unat (123 :: 32 word))
                                @ le_bytes 4 (unat UFS_INDEX_VERSION)))
          = Inr (NULL, w') \<and> ufsErrno w' = UFS_IMAGE_IS_CORRUPTED"
    using validate_decides_on_magic_and_version[OF ex_header_loads,
        of 123 UFS_INDEX_VERSION]
    by (elim exE conjE) (simp add: UFS_MAGIC_NUMBER_def)
  show "\<exists>w'. ufsHeaderValidate (Ptr 0)
            (ex_world_mapped (replicate 8 0 @ le_bytes 4 (unat UFS_MAGIC_NUMBER)
                                @ le_bytes 4 (unat (0 :: 32 word))))
          = Inr (NULL, w') \<and> ufsErrno w' = UFS_VERSION_MISMATCH"
    using validate_decides_on_magic_and_version[OF ex_header_loads,
        of UFS_MAGIC_NUMBER 0]
    by (elim exE conjE) (simp add: UFS_INDEX_VERSION_def)
qed

text \<open>
  Claim C10: \<open>ufsHeaderValidate\<close> never writes to the image. Whenever it returns,
  accepting or rejecting, the bytes of every file, the mappings and the system calls made
  are as before, so every read through every pointer gives what it gave before and the
  mapping of the caller is still there. It does return on every image that reaches to the
  end of the version field of the header.
\<close>

theorem validate_writes_nothing:
  "(\<forall>r w'. ufsHeaderValidate img w = Inr (r, w') \<longrightarrow>
       files w' = files w \<and> mappings w' = mappings w \<and> syscalls w' = syscalls w
       \<and> (\<forall>q off k. load w' q off k = load w q off k))
   \<and> ((\<exists>bs. load w img 8 8 = Inr bs) \<longrightarrow> (\<exists>r w'. ufsHeaderValidate img w = Inr (r, w')))"
proof (rule conjI)
  show "\<forall>r w'. ufsHeaderValidate img w = Inr (r, w') \<longrightarrow>
       files w' = files w \<and> mappings w' = mappings w \<and> syscalls w' = syscalls w
       \<and> (\<forall>q off k. load w' q off k = load w q off k)"
  proof (rule allI, rule allI, rule impI)
    fix r w'
    assume a: "ufsHeaderValidate img w = Inr (r, w')"
    have f: "files w' = files w \<and> mappings w' = mappings w \<and> syscalls w' = syscalls w"
      using ufsHeaderValidate_Inr[OF a] by auto
    then show "files w' = files w \<and> mappings w' = mappings w \<and> syscalls w' = syscalls w
         \<and> (\<forall>q off k. load w' q off k = load w q off k)"
      using load_frame[of w' w] by simp
  qed
next
  show "(\<exists>bs. load w img 8 8 = Inr bs) \<longrightarrow> (\<exists>r w'. ufsHeaderValidate img w = Inr (r, w'))"
  proof (rule impI)
    assume "\<exists>bs. load w img 8 8 = Inr bs"
    then obtain p n bs where i: "img_file w img = Inr (p, n, bs)"
      and b: "16 \<le> n" "16 \<le> length bs"
      by (auto simp add: load_Inr)
    have "load w img 8 4 = Inr (sub_bytes 8 4 bs)" "load w img 12 4 = Inr (sub_bytes 12 4 bs)"
      using i b by (simp_all add: load_Inr)
    then show "\<exists>r w'. ufsHeaderValidate img w = Inr (r, w')"
      by (simp add: ufsHeaderValidate_def ufsHeaderGet_eq layout_consts load_u32_def bindf_def)
  qed
qed

text \<open>
  An image with a good magic number and version 0 is rejected, and nothing but the status
  word has changed.
\<close>

theorem validate_writes_nothing_witness:
  "\<exists>r w'. ufsHeaderValidate (Ptr 0)
             (ex_world_mapped (replicate 8 0 @ le_bytes 4 (unat UFS_MAGIC_NUMBER)
                                 @ le_bytes 4 (unat (0 :: 32 word)))) = Inr (r, w')
      \<and> files w' = files (ex_world_mapped (replicate 8 0 @ le_bytes 4 (unat UFS_MAGIC_NUMBER)
                                 @ le_bytes 4 (unat (0 :: 32 word))))
      \<and> mappings w' = [Some (''img'', 16)]
      \<and> syscalls w' = []"
proof -
  define W where "W = ex_world_mapped (replicate 8 0 @ le_bytes 4 (unat UFS_MAGIC_NUMBER)
                                 @ le_bytes 4 (unat (0 :: 32 word)))"
  have l: "\<exists>bs. load W (Ptr 0) 8 8 = Inr bs"
    by (simp add: W_def ex_world_mapped_def ex_world_def load_def img_file_def bindf_def
        length_le_bytes)
  have m: "mappings W = [Some (''img'', 16)]" "syscalls W = []"
    by (simp_all add: W_def ex_world_mapped_def ex_world_def length_le_bytes)
  from validate_writes_nothing[of "Ptr 0" W] l obtain r w' where
    v: "ufsHeaderValidate (Ptr 0) W = Inr (r, w')"
    by blast
  with validate_writes_nothing[of "Ptr 0" W]
  have "files w' = files W \<and> mappings w' = mappings W \<and> syscalls w' = syscalls W"
    by blast
  with v m show ?thesis
    unfolding W_def by auto
qed


section \<open>The length word\<close>

text \<open>
  Claim C4: after every successful \<open>ufsImageCreate\<close> and every successful
  \<open>ufsHeaderInit\<close> (a call that returns a pointer that is not null), the 64-bit word at
  offset 0 of the mapped image is the length of the file behind the image; for
  \<open>ufsImageCreate\<close> the file has exactly the requested size, and the word is that size.
\<close>

theorem length_word_is_file_length:
  "(ufsImageCreate env path sz w = Inr (img, w') \<and> img \<noteq> NULL \<longrightarrow>
      (\<exists>p n bs lw. path = Some p \<and> img_file w' img = Inr (p, n, bs)
         \<and> load_u64 w' img 0 = Inr lw \<and> unat lw = length bs \<and> lw = sz))
   \<and> (ufsHeaderInit env path req w = Inr (img, w') \<and> img \<noteq> NULL \<longrightarrow>
      (\<exists>p n bs lw. path = Some p \<and> img_file w' img = Inr (p, n, bs)
         \<and> load_u64 w' img 0 = Inr lw \<and> unat lw = length bs))"
proof (rule conjI; rule impI)
  assume a: "ufsImageCreate env path sz w = Inr (img, w') \<and> img \<noteq> NULL"
  then obtain p where p: "path = Some p"
    by (cases path) (auto simp add: ufsImageCreate_def)
  have ok: "\<not> (sz < 8 \<or> open_errno env \<noteq> None \<or> ftruncate_fails env \<or> mmap_fails env)"
  proof
    assume "sz < 8 \<or> open_errno env \<noteq> None \<or> ftruncate_fails env \<or> mmap_fails env"
    from ufsImageCreate_fail[OF this, of p w] a p show False by auto
  qed
  then have ge8: "\<not> sz < 8" and env: "open_errno env = None" "\<not> ftruncate_fails env"
      "\<not> mmap_fails env"
    by auto
  have l: "8 \<le> unat sz" using ge8 by (rule not_less8_unat)
  from ufsImageCreate_ok[OF ge8 env, of p w] a p
  have img: "img = Ptr (length (mappings w))"
    and w': "w' = w\<lparr>files := (files w)(p \<mapsto> upd_bytes 0 (le_bytes 8 (unat sz))
                          (resize (unat sz) (case files w p of None \<Rightarrow> [] | Some bs \<Rightarrow> bs))),
                mappings := mappings w @ [Some (p, unat sz)],
                ufsErrno := UFS_NO_ERROR,
                syscalls := syscalls w @ [SysOpen p, SysFtruncate p (unat sz),
                                          SysMmap p (unat sz), SysClose p]\<rparr>"
    by simp_all
  show "\<exists>p n bs lw. path = Some p \<and> img_file w' img = Inr (p, n, bs)
         \<and> load_u64 w' img 0 = Inr lw \<and> unat lw = length bs \<and> lw = sz"
    using l
    by (simp add: p img w' img_file_def load_u64_def load_def bindf_def length_upd_bytes
        length_le_bytes length_resize sub_upd_eq le_val_le_bytes_u64)
next
  assume a: "ufsHeaderInit env path req w = Inr (img, w') \<and> img \<noteq> NULL"
  then have i: "ufsHeaderInit env path req w = Inr (img, w')" and nn: "img \<noteq> NULL"
    by simp_all
  from ufsHeaderInit_nonnull[OF i nn] obtain p where p: "path = Some p"
    and req: "numFiles req \<noteq> 0" "numAreas req \<noteq> 0" "numNodes req \<noteq> 0"
      "numStrBytes req \<noteq> 0"
    and fresh: "files w p = None"
    and env: "open_errno env = None" "\<not> ftruncate_fails env" "\<not> mmap_fails env"
    and big: "80 \<le> unat (resolveSize env req)"
    by blast
  define sz where "sz = resolveSize env req"
  define B0 where "B0 = upd_bytes 0 (le_bytes 8 (unat sz)) (replicate (unat sz) 0)"
  have lB0: "length B0 = unat sz"
    using big by (simp add: B0_def sz_def length_upd_bytes length_le_bytes)
  have hB0: "sub_bytes 0 8 B0 = le_bytes 8 (unat sz)"
    using big by (simp add: B0_def sz_def sub_upd_eq length_le_bytes)
  have l80: "80 \<le> length B0"
    using big lB0 by (simp add: sz_def)
  from ufsHeaderInit_ok[OF req fresh env big] i p
  have img: "img = Ptr (length (mappings w))"
    and w': "w' = w\<lparr>files := (files w)(p \<mapsto> mountHeader_bytes req B0),
                mappings := mappings w @ [Some (p, unat sz)],
                ufsErrno := UFS_NO_ERROR,
                syscalls := syscalls w @ [SysAccess p, SysSysconf, SysOpen p,
                   SysFtruncate p (unat sz), SysMmap p (unat sz), SysClose p]\<rparr>"
    by (simp_all add: B0_def sz_def)
  show "\<exists>p n bs lw. path = Some p \<and> img_file w' img = Inr (p, n, bs)
         \<and> load_u64 w' img 0 = Inr lw \<and> unat lw = length bs"
    using big lB0 l80
    by (simp add: p img w' img_file_def load_u64_def load_def bindf_def
        mountHeader_bytes_fields hB0 le_val_le_bytes_u64 sz_def)
qed

text \<open>
  Both calls succeed in the concrete environment: an image of 128 bytes, and a header for
  one file, one area, one node and 64 string bytes.
\<close>

theorem length_word_is_file_length_witness:
  "(\<exists>img w'. ufsImageCreate ex_env (Some ''img'') 128 ex_world = Inr (img, w') \<and> img \<noteq> NULL
      \<and> (\<exists>p n bs lw. img_file w' img = Inr (p, n, bs)
             \<and> load_u64 w' img 0 = Inr lw \<and> unat lw = length bs \<and> lw = 128))
   \<and> (\<exists>img w'. ufsHeaderInit ex_env (Some ''img'') ex_request ex_world = Inr (img, w')
      \<and> img \<noteq> NULL
      \<and> (\<exists>p n bs lw. img_file w' img = Inr (p, n, bs)
             \<and> load_u64 w' img 0 = Inr lw \<and> unat lw = length bs))"
proof (rule conjI)
  have "\<exists>img w'. ufsImageCreate ex_env (Some ''img'') 128 ex_world = Inr (img, w')
          \<and> img \<noteq> NULL"
    using ufsImageCreate_ok[of 128 ex_env "''img''" ex_world]
    by (simp add: ex_env_def)
  then obtain img w' where
    c: "ufsImageCreate ex_env (Some ''img'') 128 ex_world = Inr (img, w') \<and> img \<noteq> NULL"
    by blast
  with length_word_is_file_length[where env = ex_env and path = "Some ''img''" and sz = 128
      and w = ex_world and img = img and w' = w']
  show "\<exists>img w'. ufsImageCreate ex_env (Some ''img'') 128 ex_world = Inr (img, w')
      \<and> img \<noteq> NULL
      \<and> (\<exists>p n bs lw. img_file w' img = Inr (p, n, bs)
             \<and> load_u64 w' img 0 = Inr lw \<and> unat lw = length bs \<and> lw = 128)"
    by blast
next
  have "\<exists>img w'. ufsHeaderInit ex_env (Some ''img'') ex_request ex_world = Inr (img, w')
          \<and> img \<noteq> NULL"
    using ufsHeaderInit_ok[of ex_request ex_world "''img''" ex_env]
    by (simp add: ex_resolveSize) (simp add: ex_env_def ex_request_def ex_world_def)
  then obtain img w' where
    c: "ufsHeaderInit ex_env (Some ''img'') ex_request ex_world = Inr (img, w')
          \<and> img \<noteq> NULL"
    by blast
  with length_word_is_file_length[where env = ex_env and path = "Some ''img''"
      and req = ex_request and w = ex_world and img = img and w' = w']
  show "\<exists>img w'. ufsHeaderInit ex_env (Some ''img'') ex_request ex_world = Inr (img, w')
      \<and> img \<noteq> NULL
      \<and> (\<exists>p n bs lw. img_file w' img = Inr (p, n, bs)
             \<and> load_u64 w' img 0 = Inr lw \<and> unat lw = length bs)"
    by blast
qed


section \<open>Initialising a header\<close>

text \<open>
  Claim C1, as the code has it: the round trip holds for every request whose layout fits in
  64 bits. For every size request with four positive capacities whose total length in the
  words of the specification is below \<open>2^64\<close>, every path at which no file exists, and an
  operating system whose page size is a power of two and whose calls succeed,
  \<open>ufsHeaderInit\<close> succeeds, and a following \<open>ufsImageOpen\<close> of the path gives an image
  whose header has the magic number, the version, and the four requested capacities in
  \<open>sizes[UFS_TYPES_FILE..UFS_TYPES_STRING]\<close>, and which \<open>ufsHeaderValidate\<close> returns
  unchanged. The header read after \<open>ufsImageOpen\<close> has overwritten the length word is the
  header read before it: no field is disturbed.
\<close>

theorem header_round_trip:
  assumes req: "numFiles req \<noteq> 0" "numAreas req \<noteq> 0" "numNodes req \<noteq> 0"
      "numStrBytes req \<noteq> 0"
    and fresh: "files w p = None"
    and env: "open_errno env = None" "\<not> ftruncate_fails env" "\<not> mmap_fails env"
    and page: "pageSize env = 2 ^ k" "k < 64"
    and fit: "spec_total_length (2 ^ k) (unat (numFiles req)) (unat (numAreas req))
                (unat (numNodes req)) (unat (numStrBytes req)) < 2 ^ 64"
    and env': "open_errno env' = None" "\<not> fstat_fails env'" "\<not> mmap_fails env'"
  shows "\<exists>img w1 img' w2 h.
           ufsHeaderInit env (Some p) req w = Inr (img, w1) \<and> img \<noteq> NULL
         \<and> ufsImageOpen env' (Some p) w1 = Inr (img', w2) \<and> img' \<noteq> NULL
         \<and> read_header w2 img' = Inr h
         \<and> magicNumber h = UFS_MAGIC_NUMBER \<and> version h = UFS_INDEX_VERSION
         \<and> sizes h ! UFS_TYPES_FILE = numFiles req
         \<and> sizes h ! UFS_TYPES_AREA = numAreas req
         \<and> sizes h ! UFS_TYPES_NODE = numNodes req
         \<and> sizes h ! UFS_TYPES_STRING = numStrBytes req
         \<and> ufsHeaderValidate img' w2 = Inr (img', w2)
         \<and> read_header w1 img = Inr h"
proof -
  define sz where "sz = resolveSize env req"
  define n where "n = unat sz"
  define a where "a = length (mappings w)"
  define B0 where "B0 = upd_bytes 0 (le_bytes 8 n) (replicate n 0)"
  define B1 where "B1 = mountHeader_bytes req B0"
  define B2 where "B2 = upd_bytes 0 (le_bytes 8 (unat (of_nat (length B1) :: 64 word))) B1"
  define w1 where "w1 = w\<lparr>files := (files w)(p \<mapsto> B1),
                mappings := mappings w @ [Some (p, n)],
                ufsErrno := UFS_NO_ERROR,
                syscalls := syscalls w @ [SysAccess p, SysSysconf, SysOpen p,
                   SysFtruncate p n, SysMmap p n, SysClose p]\<rparr>"
  define w2 where "w2 = w1\<lparr>files := (files w1)(p \<mapsto> B2),
                mappings := mappings w1 @ [Some (p, length B1)],
                ufsErrno := UFS_NO_ERROR,
                syscalls := syscalls w1 @ [SysAccess p, SysOpen p, SysFstat p,
                                          SysMmap p (length B1), SysClose p]\<rparr>"
  define h where "h = \<lparr>magicNumber = UFS_MAGIC_NUMBER, version = UFS_INDEX_VERSION,
      sizes = [numFiles req, numAreas req, numNodes req, numStrBytes req],
      offsets = mountHeader_offsets req\<rparr>"
  have n_spec: "n = spec_total_length (2 ^ k) (unat (numFiles req)) (unat (numAreas req))
                (unat (numNodes req)) (unat (numStrBytes req))"
    unfolding n_def sz_def by (rule resolveSize_spec[OF page fit])
  have n80: "80 \<le> n"
    unfolding n_spec by (rule spec_total_ge_80) simp
  have lB0: "length B0 = n"
    using n80 by (simp add: B0_def length_upd_bytes length_le_bytes)
  have lB1: "length B1 = n"
    using n80 lB0 by (simp add: B1_def mountHeader_bytes_fields)
  have lB2: "length B2 = n"
    using n80 lB1 by (simp add: B2_def length_upd_bytes length_le_bytes)
  have lo: "length (mountHeader_offsets req) = 4"
    by (simp add: mountHeader_offsets_def Let_def)
  have init: "ufsHeaderInit env (Some p) req w = Inr (Ptr a, w1)"
    using ufsHeaderInit_ok[OF req fresh env] n80
    by (simp add: w1_def B1_def B0_def n_def sz_def a_def)
  have f1: "files w1 p = Some B1"
    by (simp add: w1_def)
  have opn: "ufsImageOpen env' (Some p) w1 = Inr (Ptr (Suc a), w2)"
    using ufsImageOpen_ok[OF f1 _ env'] n80 lB1
    by (simp add: w2_def B2_def) (simp add: w1_def a_def)
  have fld1: "sub_bytes 8 4 B1 = le_bytes 4 (unat UFS_MAGIC_NUMBER)"
      "sub_bytes 12 4 B1 = le_bytes 4 (unat UFS_INDEX_VERSION)"
      "sub_bytes 16 8 B1 = le_bytes 8 (unat (numFiles req))"
      "sub_bytes 24 8 B1 = le_bytes 8 (unat (numAreas req))"
      "sub_bytes 32 8 B1 = le_bytes 8 (unat (numNodes req))"
      "sub_bytes 40 8 B1 = le_bytes 8 (unat (numStrBytes req))"
      "sub_bytes 48 8 B1 = le_bytes 8 (unat (mountHeader_offsets req ! 0))"
      "sub_bytes 56 8 B1 = le_bytes 8 (unat (mountHeader_offsets req ! 1))"
      "sub_bytes 64 8 B1 = le_bytes 8 (unat (mountHeader_offsets req ! 2))"
      "sub_bytes 72 8 B1 = le_bytes 8 (unat (mountHeader_offsets req ! 3))"
    using n80 lB0 unfolding B1_def by (simp_all add: mountHeader_bytes_fields)
  have keep: "sub_bytes off m B2 = sub_bytes off m B1" if "8 \<le> off" for off m
    unfolding B2_def using that n80 lB1
    by (intro sub_upd_above) (simp_all add: length_le_bytes)
  have os: "mountHeader_offsets req = [mountHeader_offsets req ! 0, mountHeader_offsets req ! 1,
      mountHeader_offsets req ! 2, mountHeader_offsets req ! 3]"
    by (simp add: mountHeader_offsets_def Let_def)
  have rh1: "read_header w1 (Ptr a) = Inr h"
    using read_header_ok[of a w1 p n B1] n80 lB1 os
    by (simp add: w1_def a_def nth_append fld1 le_val_le_bytes_u32 le_val_le_bytes_u64 h_def)
  have rh2: "read_header w2 (Ptr (Suc a)) = Inr h"
    using read_header_ok[of "Suc a" w2 p n B2] n80 lB1 lB2 os
    by (simp add: w2_def w1_def a_def nth_append keep fld1 le_val_le_bytes_u32
        le_val_le_bytes_u64 h_def)
  have val: "ufsHeaderValidate (Ptr (Suc a)) w2 = Inr (Ptr (Suc a), w2)"
    using ufsHeaderValidate_ok[of "Suc a" w2 p n B2] n80 lB1 lB2
    by (simp add: w2_def w1_def a_def nth_append keep fld1 le_val_le_bytes_u32)
  show ?thesis
    using init opn rh1 rh2 val
    by (intro exI[of _ "Ptr a"] exI[of _ w1] exI[of _ "Ptr (Suc a)"] exI[of _ w2] exI[of _ h])
       (simp add: h_def UFS_TYPES_FILE_def UFS_TYPES_AREA_def UFS_TYPES_NODE_def
          UFS_TYPES_STRING_def)
qed

text \<open>
  The claim as stated, for every request with four positive capacities, fails: all four
  capacities of \<open>ex_request_wrap\<close> are positive and every system call would succeed, but
  the computed length wraps around to 0, \<open>ufsImageCreate\<close> rejects it, and
  \<open>ufsHeaderInit\<close> returns null with \<open>UFS_BAD_CALL\<close> after \<open>access\<close> and
  \<open>sysconf\<close> only.
\<close>

theorem header_round_trip_counterexample:
  "numFiles ex_request_wrap \<noteq> 0 \<and> numAreas ex_request_wrap \<noteq> 0
   \<and> numNodes ex_request_wrap \<noteq> 0 \<and> numStrBytes ex_request_wrap \<noteq> 0
   \<and> files ex_world ''img'' = None
   \<and> ufsHeaderInit ex_env (Some ''img'') ex_request_wrap ex_world
       = Inr (NULL, ex_world\<lparr>ufsErrno := UFS_BAD_CALL,
                             syscalls := [SysAccess ''img'', SysSysconf]\<rparr>)"
  by (simp add: ufsHeaderInit_def ex_resolveSize_wrap ufsImageCreate_def sys_access_def
      emit_def bindf_def Let_def)
     (simp add: ex_request_wrap_def ex_world_def)

text \<open>The round trip at the concrete request, with pages of \<open>2^12\<close> bytes.\<close>

theorem header_round_trip_witness:
  "\<exists>img w1 img' w2 h.
      ufsHeaderInit ex_env (Some ''img'') ex_request ex_world = Inr (img, w1) \<and> img \<noteq> NULL
    \<and> ufsImageOpen ex_env (Some ''img'') w1 = Inr (img', w2) \<and> img' \<noteq> NULL
    \<and> read_header w2 img' = Inr h
    \<and> magicNumber h = UFS_MAGIC_NUMBER \<and> version h = UFS_INDEX_VERSION
    \<and> sizes h ! UFS_TYPES_FILE = 1
    \<and> sizes h ! UFS_TYPES_AREA = 1
    \<and> sizes h ! UFS_TYPES_NODE = 1
    \<and> sizes h ! UFS_TYPES_STRING = 64
    \<and> ufsHeaderValidate img' w2 = Inr (img', w2)
    \<and> read_header w1 img = Inr h"
proof -
  have fit: "spec_total_length (2 ^ 12) (unat (numFiles ex_request))
      (unat (numAreas ex_request)) (unat (numNodes ex_request))
      (unat (numStrBytes ex_request)) < 2 ^ 64"
    by (simp add: spec_total_length_eq ex_request_def align_up_def)
  show ?thesis
    using header_round_trip[where req = ex_request and w = ex_world and p = "''img''"
        and env = ex_env and env' = ex_env and k = 12, OF _ _ _ _ _ _ _ _ _ _ fit]
    by (simp add: ex_request_def ex_env_def ex_world_def)
qed

text \<open>
  Where the layout fits in 64 bits the code computes the layout of the specification. For
  every size request with four positive capacities whose total length in the words of the
  specification is below \<open>2^64\<close>, and a page size that is a power of two,
  \<open>resolveSize\<close> computes exactly that length; the file \<open>ufsHeaderInit\<close> creates has that
  length, which is a multiple of the page size; the recorded \<open>offsets[]\<close> are the offsets
  of the specification; and the header and the four tables lie one after the other, in the
  order Files, Areas, Nodes, Strings, without overlap and inside the file.
\<close>

lemma computed_length_matches_spec:
  assumes req: "numFiles req \<noteq> 0" "numAreas req \<noteq> 0" "numNodes req \<noteq> 0"
      "numStrBytes req \<noteq> 0"
    and fresh: "files w p = None"
    and env: "open_errno env = None" "\<not> ftruncate_fails env" "\<not> mmap_fails env"
    and page: "pageSize env = 2 ^ k" "k < 64"
    and fit: "spec_total_length (2 ^ k) (unat (numFiles req)) (unat (numAreas req))
                (unat (numNodes req)) (unat (numStrBytes req)) < 2 ^ 64"
  shows "unat (resolveSize env req)
           = spec_total_length (unat (pageSize env)) (unat (numFiles req)) (unat (numAreas req))
               (unat (numNodes req)) (unat (numStrBytes req))
       \<and> (\<exists>img w' bs h.
             ufsHeaderInit env (Some p) req w = Inr (img, w') \<and> img \<noteq> NULL
           \<and> files w' p = Some bs
           \<and> length bs = unat (resolveSize env req)
           \<and> unat (pageSize env) dvd length bs
           \<and> read_header w' img = Inr h
           \<and> map unat (offsets h)
               = spec_table_offsets (unat (numFiles req)) (unat (numAreas req))
                   (unat (numNodes req))
           \<and> snd (ufsHeaderGet img) + sizeof_struct ufsHeaderStruct
               \<le> unat (offsets h ! UFS_TYPES_FILE)
           \<and> unat (offsets h ! UFS_TYPES_FILE)
                 + sizeof_struct ufsFileStruct * unat (numFiles req)
               \<le> unat (offsets h ! UFS_TYPES_AREA)
           \<and> unat (offsets h ! UFS_TYPES_AREA)
                 + sizeof_struct ufsAreaStruct * unat (numAreas req)
               \<le> unat (offsets h ! UFS_TYPES_NODE)
           \<and> unat (offsets h ! UFS_TYPES_NODE)
                 + sizeof_struct ufsNodeStruct * unat (numNodes req)
               \<le> unat (offsets h ! UFS_TYPES_STRING)
           \<and> unat (offsets h ! UFS_TYPES_STRING) + sizeof_char * unat (numStrBytes req)
               \<le> length bs)"
proof -
  let ?F = "unat (numFiles req)" and ?A = "unat (numAreas req)"
    and ?N = "unat (numNodes req)" and ?S = "unat (numStrBytes req)"
  let ?T = "80 + 16 * ?F + 16 * ?A + 48 * ?N + ?S"
  have up: "unat (pageSize env) = 2 ^ k"
    using page by (simp add: unat_pow2)
  have total: "unat (resolveSize env req) = spec_total_length (2 ^ k) ?F ?A ?N ?S"
    by (rule resolveSize_spec[OF page fit])
  have T_le: "?T \<le> spec_total_length (2 ^ k) ?F ?A ?N ?S"
    unfolding spec_total_length_eq by (rule align_up_ge) simp
  with fit have fitT: "?T < 2 ^ 64" by linarith
  have big: "80 \<le> unat (resolveSize env req)"
    using total T_le by linarith
  have offs: "map unat (mountHeader_offsets req) = spec_table_offsets ?F ?A ?N"
    using layout_words(1)[OF fitT] by (simp add: spec_table_offsets_eq)
  have lo: "length (mountHeader_offsets req) = 4"
    by (simp add: mountHeader_offsets_def Let_def)
  have oi: "unat (mountHeader_offsets req ! i)
              = [80, 80 + 16 * ?F, 80 + 16 * ?F + 16 * ?A, 80 + 16 * ?F + 16 * ?A + 48 * ?N] ! i"
    if "i < 4" for i
    using layout_words(1)[OF fitT] lo that by (metis nth_map)
  have o: "unat (mountHeader_offsets req ! 0) = 80"
      "unat (mountHeader_offsets req ! 1) = 80 + 16 * ?F"
      "unat (mountHeader_offsets req ! 2) = 80 + 16 * ?F + 16 * ?A"
      "unat (mountHeader_offsets req ! 3) = 80 + 16 * ?F + 16 * ?A + 48 * ?N"
    using oi[of 0] oi[of 1] oi[of 2] oi[of 3] by simp_all
  have dv: "unat (pageSize env) dvd unat (resolveSize env req)"
    by (rule resolveSize_page_multiple[OF page])
  from init_header[OF req fresh env big] obtain w1 bs where
    i: "ufsHeaderInit env (Some p) req w = Inr (Ptr (length (mappings w)), w1)"
    and f: "files w1 p = Some bs" and l: "length bs = unat (resolveSize env req)"
    and rh: "read_header w1 (Ptr (length (mappings w)))
               = Inr \<lparr>magicNumber = UFS_MAGIC_NUMBER, version = UFS_INDEX_VERSION,
                      sizes = [numFiles req, numAreas req, numNodes req, numStrBytes req],
                      offsets = mountHeader_offsets req\<rparr>"
    by blast
  have second: "\<exists>img w' bs h.
             ufsHeaderInit env (Some p) req w = Inr (img, w') \<and> img \<noteq> NULL
           \<and> files w' p = Some bs
           \<and> length bs = unat (resolveSize env req)
           \<and> unat (pageSize env) dvd length bs
           \<and> read_header w' img = Inr h
           \<and> map unat (offsets h) = spec_table_offsets ?F ?A ?N
           \<and> snd (ufsHeaderGet img) + sizeof_struct ufsHeaderStruct
               \<le> unat (offsets h ! UFS_TYPES_FILE)
           \<and> unat (offsets h ! UFS_TYPES_FILE) + sizeof_struct ufsFileStruct * ?F
               \<le> unat (offsets h ! UFS_TYPES_AREA)
           \<and> unat (offsets h ! UFS_TYPES_AREA) + sizeof_struct ufsAreaStruct * ?A
               \<le> unat (offsets h ! UFS_TYPES_NODE)
           \<and> unat (offsets h ! UFS_TYPES_NODE) + sizeof_struct ufsNodeStruct * ?N
               \<le> unat (offsets h ! UFS_TYPES_STRING)
           \<and> unat (offsets h ! UFS_TYPES_STRING) + sizeof_char * ?S \<le> length bs"
    using i f l rh dv offs o total T_le
    by (intro exI[of _ "Ptr (length (mappings w))"] exI[of _ w1] exI[of _ bs]
          exI[of _ "\<lparr>magicNumber = UFS_MAGIC_NUMBER, version = UFS_INDEX_VERSION,
                      sizes = [numFiles req, numAreas req, numNodes req, numStrBytes req],
                      offsets = mountHeader_offsets req\<rparr>"])
       (simp add: ufsHeaderGet_eq layout_consts sizeof_char_def UFS_TYPES_FILE_def
          UFS_TYPES_AREA_def UFS_TYPES_NODE_def UFS_TYPES_STRING_def)
  have first: "unat (resolveSize env req)
           = spec_total_length (unat (pageSize env)) ?F ?A ?N ?S"
    using total by (simp only: up)
  from first second show ?thesis by (rule conjI)
qed

text \<open>The layout at the concrete request: one page of 4096 bytes.\<close>

lemma computed_length_matches_spec_witness:
  "unat (resolveSize ex_env ex_request)
     = spec_total_length (unat (pageSize ex_env)) (unat (numFiles ex_request))
         (unat (numAreas ex_request)) (unat (numNodes ex_request))
         (unat (numStrBytes ex_request))
   \<and> (\<exists>img w' bs h.
         ufsHeaderInit ex_env (Some ''img'') ex_request ex_world = Inr (img, w')
       \<and> img \<noteq> NULL
       \<and> files w' ''img'' = Some bs
       \<and> length bs = unat (resolveSize ex_env ex_request)
       \<and> unat (pageSize ex_env) dvd length bs
       \<and> read_header w' img = Inr h
       \<and> map unat (offsets h)
           = spec_table_offsets (unat (numFiles ex_request)) (unat (numAreas ex_request))
               (unat (numNodes ex_request))
       \<and> snd (ufsHeaderGet img) + sizeof_struct ufsHeaderStruct
           \<le> unat (offsets h ! UFS_TYPES_FILE)
       \<and> unat (offsets h ! UFS_TYPES_FILE)
             + sizeof_struct ufsFileStruct * unat (numFiles ex_request)
           \<le> unat (offsets h ! UFS_TYPES_AREA)
       \<and> unat (offsets h ! UFS_TYPES_AREA)
             + sizeof_struct ufsAreaStruct * unat (numAreas ex_request)
           \<le> unat (offsets h ! UFS_TYPES_NODE)
       \<and> unat (offsets h ! UFS_TYPES_NODE)
             + sizeof_struct ufsNodeStruct * unat (numNodes ex_request)
           \<le> unat (offsets h ! UFS_TYPES_STRING)
       \<and> unat (offsets h ! UFS_TYPES_STRING) + sizeof_char * unat (numStrBytes ex_request)
           \<le> length bs)"
proof (rule computed_length_matches_spec[where k = 12])
  show "spec_total_length (2 ^ 12) (unat (numFiles ex_request))
      (unat (numAreas ex_request)) (unat (numNodes ex_request))
      (unat (numStrBytes ex_request)) < 2 ^ 64"
    by (simp add: spec_total_length_eq ex_request_def align_up_def)
qed (simp_all add: ex_request_def ex_env_def ex_world_def)

text \<open>
  Claim C3: for every size request with four positive capacities, the total length computed
  by \<open>ufsHeaderInit\<close> is the length of the specification (8, the header, the four tables,
  rounded up to the page size), so that the four tables lie inside the created file. The
  code breaks this where the sum does not fit in 64 bits: \<open>resolveSize\<close> and
  \<open>mountHeader\<close> add in \<open>uint64_t\<close> without a check. For \<open>ex_request_huge\<close> (one
  file, one area, one node and \<open>2^64 - 1\<close> string bytes), with every system call
  succeeding, the sum wraps around to 159 and is rounded up to 4096, while the length of the
  specification is \<open>2^64 + 4096\<close>. \<open>ufsHeaderInit\<close> returns an image with
  \<open>UFS_NO_ERROR\<close>; its file has 4096 bytes, and its header records a string table of
  \<open>2^64 - 1\<close> bytes at offset 160, which does not fit in the file. The comment of
  \<open>ufsHeaderInit\<close> promises that the resulting size conforms to the requested sizes.
\<close>

theorem init_overflows_at_huge_request:
  "\<exists>w' bs.
      ufsHeaderInit ex_env (Some ''img'') ex_request_huge ex_world = Inr (Ptr 0, w')
    \<and> ufsErrno w' = UFS_NO_ERROR
    \<and> files w' ''img'' = Some bs
    \<and> length bs = 4096
    \<and> unat (resolveSize ex_env ex_request_huge) = 4096
    \<and> spec_total_length (unat (pageSize ex_env)) (unat (numFiles ex_request_huge))
          (unat (numAreas ex_request_huge)) (unat (numNodes ex_request_huge))
          (unat (numStrBytes ex_request_huge)) = 18446744073709555712
    \<and> read_header w' (Ptr 0)
        = Inr \<lparr>magicNumber = UFS_MAGIC_NUMBER, version = UFS_INDEX_VERSION,
               sizes = [1, 1, 1, 18446744073709551615],
               offsets = [80, 96, 112, 160]\<rparr>
    \<and> length bs < 160 + sizeof_char * unat (numStrBytes ex_request_huge)"
proof -
  have r: "numFiles ex_request_huge = 1" "numAreas ex_request_huge = 1"
      "numNodes ex_request_huge = 1" "numStrBytes ex_request_huge = 18446744073709551615"
    by (simp_all add: ex_request_huge_def)
  have e: "open_errno ex_env = None" "\<not> ftruncate_fails ex_env" "\<not> mmap_fails ex_env"
      "pageSize ex_env = 4096"
    by (simp_all add: ex_env_def)
  have f: "files ex_world ''img'' = None" "mappings ex_world = []"
    by (simp_all add: ex_world_def)
  have big: "80 \<le> unat (resolveSize ex_env ex_request_huge)"
    by (simp add: ex_resolveSize_huge)
  have nz: "numFiles ex_request_huge \<noteq> 0" "numAreas ex_request_huge \<noteq> 0"
      "numNodes ex_request_huge \<noteq> 0" "numStrBytes ex_request_huge \<noteq> 0"
    by (simp_all add: r)
  from init_header[OF nz f(1) e(1,2,3) big] obtain w1 bs where
    i: "ufsHeaderInit ex_env (Some ''img'') ex_request_huge ex_world = Inr (Ptr 0, w1)"
    and b: "files w1 ''img'' = Some bs" "length bs = 4096"
    and h: "read_header w1 (Ptr 0)
        = Inr \<lparr>magicNumber = UFS_MAGIC_NUMBER, version = UFS_INDEX_VERSION,
               sizes = [1, 1, 1, 18446744073709551615],
               offsets = [80, 96, 112, 160]\<rparr>"
    by (auto simp add: f r ex_resolveSize_huge ex_offsets_huge)
  have n: "ufsErrno w1 = UFS_NO_ERROR"
    by (rule ufsHeaderInit_nonnull_errno[OF i]) simp
  have s: "spec_total_length (unat (pageSize ex_env)) (unat (numFiles ex_request_huge))
          (unat (numAreas ex_request_huge)) (unat (numNodes ex_request_huge))
          (unat (numStrBytes ex_request_huge)) = 18446744073709555712"
    by (simp add: spec_total_length_eq r e align_up_def)
  have t: "length bs < 160 + sizeof_char * unat (numStrBytes ex_request_huge)"
    by (simp add: b r sizeof_char_def)
  from i n b h s t show ?thesis
    by (simp add: ex_resolveSize_huge)
qed


section \<open>Freeing an image\<close>

text \<open>
  Claim C8, as the code has it: \<open>ufsImageFree\<close> has no check for a null handle. It
  reads the length word through the handle first, so on a null handle it dereferences the
  null pointer and has no defined result. On a live image whose length word is the mapped
  length it unmaps exactly that mapping, and leaves the files and the status word as they
  are.
\<close>

theorem ufsImageFree_reads_length_word:
  "ufsImageFree NULL w = Inl NullDeref
   \<and> (a < length (mappings w) \<and> mappings w ! a = Some (p, n)
        \<and> load_u64 w (Ptr a) 0 = Inr lw \<and> unat lw = n \<longrightarrow>
      ufsImageFree (Ptr a) w
        = Inr (w\<lparr>mappings := (mappings w)[a := None],
                 syscalls := syscalls w @ [SysMunmap a n]\<rparr>))"
  by (auto simp add: ufsImageFree_def load_u64_def load_def img_file_def sys_munmap_def
      ptr_addr_def emit_def bindf_def)

text \<open>
  The claim as stated, that \<open>ufsImageFree(NULL)\<close> returns and leaves all state
  unchanged, fails in every world, for example in the world without files.
\<close>

theorem ufsImageFree_null_counterexample:
  "ufsImageFree NULL ex_world = Inl NullDeref \<and> ufsImageFree NULL ex_world \<noteq> Inr ex_world"
  by (simp add: ufsImageFree_def load_u64_def load_def img_file_def bindf_def)

text \<open>The null handle, and a mapped image of 16 bytes whose length word is 16.\<close>

theorem ufsImageFree_reads_length_word_witness:
  "ufsImageFree NULL ex_world = Inl NullDeref
   \<and> ufsImageFree (Ptr 0) (ex_world_mapped (le_bytes 8 16 @ replicate 8 0))
       = Inr ((ex_world_mapped (le_bytes 8 16 @ replicate 8 0))
                \<lparr>mappings := [None], syscalls := [SysMunmap 0 16]\<rparr>)"
proof -
  define W where "W = ex_world_mapped (le_bytes 8 16 @ replicate 8 0)"
  have h: "0 < length (mappings W) \<and> mappings W ! 0 = Some (''img'', 16)
        \<and> load_u64 W (Ptr 0) 0 = Inr 16 \<and> unat (16 :: 64 word) = 16"
    using le_val_le_bytes[of 8 16]
    by (simp add: W_def ex_world_mapped_def ex_world_def load_u64_def load_def img_file_def
        bindf_def length_le_bytes sub_bytes_def)
  have m: "mappings W = [Some (''img'', 16)]" "syscalls W = []"
    by (simp_all add: W_def ex_world_mapped_def ex_world_def length_le_bytes)
  from ufsImageFree_reads_length_word[where w = ex_world]
    ufsImageFree_reads_length_word[where w = W and a = 0 and p = "''img''" and n = 16
      and lw = 16] h m
  show ?thesis
    by (simp add: W_def)
qed


section \<open>The status word\<close>

text \<open>
  Claim C5, as the code has it: \<open>ufsImageOpen\<close> sets the status word on every path;
  \<open>ufsImageCreate\<close> and \<open>ufsHeaderInit\<close> set it on every path on which
  \<open>ftruncate\<close> does not fail (the result does not depend on the status word before the
  call); and these three leave \<open>UFS_NO_ERROR\<close> whenever they return an image.
  \<open>ufsImageSync\<close> and \<open>ufsHeaderValidate\<close> set the status word when they fail and
  leave it as it was when they succeed, and \<open>ufsImageFree\<close> never changes it.
\<close>

theorem status_word_set_or_kept:
  "ufsImageOpen env path (w\<lparr>ufsErrno := e\<rparr>) = ufsImageOpen env path w
   \<and> (\<not> ftruncate_fails env \<longrightarrow>
        ufsImageCreate env path sz (w\<lparr>ufsErrno := e\<rparr>) = ufsImageCreate env path sz w)
   \<and> (\<not> ftruncate_fails env \<longrightarrow>
        ufsHeaderInit env path req (w\<lparr>ufsErrno := e\<rparr>) = ufsHeaderInit env path req w)
   \<and> (ufsImageOpen env path w = Inr (r, w') \<and> r \<noteq> NULL \<longrightarrow> ufsErrno w' = UFS_NO_ERROR)
   \<and> (ufsImageCreate env path sz w = Inr (r, w') \<and> r \<noteq> NULL \<longrightarrow>
        ufsErrno w' = UFS_NO_ERROR)
   \<and> (ufsHeaderInit env path req w = Inr (r, w') \<and> r \<noteq> NULL \<longrightarrow>
        ufsErrno w' = UFS_NO_ERROR)
   \<and> (ufsImageSync env img w = Inr (ok, w') \<longrightarrow>
        ufsErrno w' = (if ok then ufsErrno w else UFS_IMAGE_COULD_NOT_SYNC))
   \<and> (ufsHeaderValidate img w = Inr (r, w') \<longrightarrow>
        (r \<noteq> NULL \<longrightarrow> ufsErrno w' = ufsErrno w)
        \<and> (r = NULL \<longrightarrow> ufsErrno w' = UFS_IMAGE_IS_CORRUPTED
                         \<or> ufsErrno w' = UFS_VERSION_MISMATCH))
   \<and> (ufsImageFree img w = Inr w' \<longrightarrow> ufsErrno w' = ufsErrno w)"
  using ufsImageOpen_errno_indep[where env = env and path = path and w = w and e = e]
    ufsImageCreate_errno_indep[where env = env and path = path and sz = sz and w = w
      and e = e]
    ufsHeaderInit_errno_indep[where env = env and path = path and req = req and w = w
      and e = e]
    ufsImageOpen_nonnull_errno[of env path w r w']
    ufsImageCreate_nonnull_errno[of env path sz w r w']
    ufsHeaderInit_nonnull_errno[of env path req w r w']
    ufsImageSync_errno[of env img w ok w']
    ufsHeaderValidate_errno[of img w r w']
    ufsImageFree_errno[of img w w']
  by blast

text \<open>
  The claim as stated, that every operation sets the status word on success too, fails: on
  an image with a good header, \<open>ufsHeaderValidate\<close> returns the image and the status word
  is still the \<open>UFS_BAD_CALL\<close> of an earlier call.
\<close>

theorem status_word_counterexample:
  "ufsHeaderValidate (Ptr 0)
     ((ex_world_mapped (replicate 8 0 @ le_bytes 4 (unat UFS_MAGIC_NUMBER)
                          @ le_bytes 4 (unat UFS_INDEX_VERSION)))\<lparr>ufsErrno := UFS_BAD_CALL\<rparr>)
   = Inr (Ptr 0,
      (ex_world_mapped (replicate 8 0 @ le_bytes 4 (unat UFS_MAGIC_NUMBER)
                          @ le_bytes 4 (unat UFS_INDEX_VERSION)))\<lparr>ufsErrno := UFS_BAD_CALL\<rparr>)
   \<and> UFS_BAD_CALL \<noteq> UFS_NO_ERROR"
proof -
  define B where "B = replicate 8 0 @ le_bytes 4 (unat UFS_MAGIC_NUMBER)
                          @ le_bytes 4 (unat UFS_INDEX_VERSION)"
  have l: "length B = 16" by (simp add: B_def length_le_bytes)
  have s: "sub_bytes 8 4 B = le_bytes 4 (unat UFS_MAGIC_NUMBER)"
      "sub_bytes 12 4 B = le_bytes 4 (unat UFS_INDEX_VERSION)"
    by (simp_all add: B_def sub_bytes_def length_le_bytes)
  have "ufsHeaderValidate (Ptr 0) ((ex_world_mapped B)\<lparr>ufsErrno := UFS_BAD_CALL\<rparr>)
          = Inr (Ptr 0, (ex_world_mapped B)\<lparr>ufsErrno := UFS_BAD_CALL\<rparr>)"
    using ufsHeaderValidate_ok[of 0 "(ex_world_mapped B)\<lparr>ufsErrno := UFS_BAD_CALL\<rparr>"
        "''img''" 16 B] l
    by (simp add: ex_world_mapped_def ex_world_def s le_val_le_bytes_u32)
  then show ?thesis
    by (simp add: B_def UFS_BAD_CALL_def UFS_NO_ERROR_def)
qed

text \<open>
  The parts of the statement at concrete inputs: the calls that set the status word give
  the same result whatever it was before; the successful calls of \<open>ufsImageOpen\<close>,
  \<open>ufsImageCreate\<close> and \<open>ufsHeaderInit\<close> leave \<open>UFS_NO_ERROR\<close>; the successful
  calls of \<open>ufsImageSync\<close>, \<open>ufsHeaderValidate\<close> and \<open>ufsImageFree\<close> leave the
  earlier \<open>UFS_BAD_CALL\<close>.
\<close>

theorem status_word_set_or_kept_witness:
  "ufsImageCreate ex_env (Some ''img'') 128 (ex_world\<lparr>ufsErrno := UFS_BAD_CALL\<rparr>)
     = ufsImageCreate ex_env (Some ''img'') 128 ex_world
   \<and> ufsHeaderInit ex_env (Some ''img'') ex_request (ex_world\<lparr>ufsErrno := UFS_BAD_CALL\<rparr>)
     = ufsHeaderInit ex_env (Some ''img'') ex_request ex_world
   \<and> (\<exists>r w'. ufsImageOpen ex_env (Some ''img'') (ex_world_file (replicate 16 0)) = Inr (r, w')
         \<and> r \<noteq> NULL \<and> ufsErrno w' = UFS_NO_ERROR)
   \<and> (\<exists>r w'. ufsImageCreate ex_env (Some ''img'') 128 ex_world = Inr (r, w')
         \<and> r \<noteq> NULL \<and> ufsErrno w' = UFS_NO_ERROR)
   \<and> (\<exists>r w'. ufsHeaderInit ex_env (Some ''img'') ex_request ex_world = Inr (r, w')
         \<and> r \<noteq> NULL \<and> ufsErrno w' = UFS_NO_ERROR)
   \<and> (\<exists>w'. ufsImageSync ex_env (Ptr 0)
               ((ex_world_mapped (le_bytes 8 16 @ replicate 8 0))\<lparr>ufsErrno := UFS_BAD_CALL\<rparr>)
             = Inr (True, w')
         \<and> ufsErrno w' = UFS_BAD_CALL)
   \<and> (\<exists>w'. ufsHeaderValidate (Ptr 0)
               ((ex_world_mapped (replicate 8 0 @ le_bytes 4 (unat UFS_MAGIC_NUMBER)
                    @ le_bytes 4 (unat UFS_INDEX_VERSION)))\<lparr>ufsErrno := UFS_BAD_CALL\<rparr>)
             = Inr (Ptr 0, w')
         \<and> ufsErrno w' = UFS_BAD_CALL)
   \<and> (\<exists>w'. ufsImageFree (Ptr 0)
               ((ex_world_mapped (le_bytes 8 16 @ replicate 8 0))\<lparr>ufsErrno := UFS_BAD_CALL\<rparr>)
             = Inr w'
         \<and> ufsErrno w' = UFS_BAD_CALL)"
proof (intro conjI)
  have nf: "\<not> ftruncate_fails ex_env" by (simp add: ex_env_def)
  show "ufsImageCreate ex_env (Some ''img'') 128 (ex_world\<lparr>ufsErrno := UFS_BAD_CALL\<rparr>)
     = ufsImageCreate ex_env (Some ''img'') 128 ex_world"
    using status_word_set_or_kept[where env = ex_env and path = "Some ''img''" and sz = 128
        and w = ex_world and e = UFS_BAD_CALL] nf
    by blast
  show "ufsHeaderInit ex_env (Some ''img'') ex_request (ex_world\<lparr>ufsErrno := UFS_BAD_CALL\<rparr>)
     = ufsHeaderInit ex_env (Some ''img'') ex_request ex_world"
    using status_word_set_or_kept[where env = ex_env and path = "Some ''img''"
        and req = ex_request and w = ex_world and e = UFS_BAD_CALL] nf
    by blast
next
  have "\<exists>r w'. ufsImageOpen ex_env (Some ''img'') (ex_world_file (replicate 16 0))
          = Inr (r, w') \<and> r \<noteq> NULL"
    using ufsImageOpen_ok[of "ex_world_file (replicate 16 0)" "''img''" "replicate 16 0" ex_env]
    by (simp add: ex_world_file_def ex_env_def)
  then obtain r w' where
    c: "ufsImageOpen ex_env (Some ''img'') (ex_world_file (replicate 16 0)) = Inr (r, w')
          \<and> r \<noteq> NULL"
    by blast
  with status_word_set_or_kept[where env = ex_env and path = "Some ''img''"
      and w = "ex_world_file (replicate 16 0)" and r = r and w' = w']
  show "\<exists>r w'. ufsImageOpen ex_env (Some ''img'') (ex_world_file (replicate 16 0))
          = Inr (r, w') \<and> r \<noteq> NULL \<and> ufsErrno w' = UFS_NO_ERROR"
    by blast
next
  have "\<exists>r w'. ufsImageCreate ex_env (Some ''img'') 128 ex_world = Inr (r, w') \<and> r \<noteq> NULL"
    using ufsImageCreate_ok[of 128 ex_env "''img''" ex_world]
    by (simp add: ex_env_def)
  then obtain r w' where
    c: "ufsImageCreate ex_env (Some ''img'') 128 ex_world = Inr (r, w') \<and> r \<noteq> NULL"
    by blast
  with status_word_set_or_kept[where env = ex_env and path = "Some ''img''" and sz = 128
      and w = ex_world and r = r and w' = w']
  show "\<exists>r w'. ufsImageCreate ex_env (Some ''img'') 128 ex_world = Inr (r, w')
          \<and> r \<noteq> NULL \<and> ufsErrno w' = UFS_NO_ERROR"
    by blast
next
  have "\<exists>r w'. ufsHeaderInit ex_env (Some ''img'') ex_request ex_world = Inr (r, w')
          \<and> r \<noteq> NULL"
    using ufsHeaderInit_ok[of ex_request ex_world "''img''" ex_env]
    by (simp add: ex_resolveSize) (simp add: ex_env_def ex_request_def ex_world_def)
  then obtain r w' where
    c: "ufsHeaderInit ex_env (Some ''img'') ex_request ex_world = Inr (r, w') \<and> r \<noteq> NULL"
    by blast
  with status_word_set_or_kept[where env = ex_env and path = "Some ''img''"
      and req = ex_request and w = ex_world and r = r and w' = w']
  show "\<exists>r w'. ufsHeaderInit ex_env (Some ''img'') ex_request ex_world = Inr (r, w')
          \<and> r \<noteq> NULL \<and> ufsErrno w' = UFS_NO_ERROR"
    by blast
next
  define W where "W = (ex_world_mapped (le_bytes 8 16 @ replicate 8 0))
                         \<lparr>ufsErrno := UFS_BAD_CALL\<rparr>"
  have e: "ufsErrno W = UFS_BAD_CALL" by (simp add: W_def)
  have "\<exists>w'. ufsImageSync ex_env (Ptr 0) W = Inr (True, w')"
    by (simp add: ufsImageSync_def W_def ex_world_mapped_def ex_world_def ex_env_def
        load_u64_def load_def img_file_def bindf_def length_le_bytes Let_def)
  then obtain w' where c: "ufsImageSync ex_env (Ptr 0) W = Inr (True, w')"
    by blast
  with status_word_set_or_kept[where env = ex_env and img = "Ptr 0" and w = W
      and ok = True and w' = w'] e
  show "\<exists>w'. ufsImageSync ex_env (Ptr 0) W = Inr (True, w') \<and> ufsErrno w' = UFS_BAD_CALL"
    by auto
next
  define W where "W = (ex_world_mapped (replicate 8 0 @ le_bytes 4 (unat UFS_MAGIC_NUMBER)
                    @ le_bytes 4 (unat UFS_INDEX_VERSION)))\<lparr>ufsErrno := UFS_BAD_CALL\<rparr>"
  have e: "ufsErrno W = UFS_BAD_CALL" by (simp add: W_def)
  have "\<exists>w'. ufsHeaderValidate (Ptr 0) W = Inr (Ptr 0, w')"
    using ufsHeaderValidate_ok[of 0 W "''img''" 16
        "replicate 8 0 @ le_bytes 4 (unat UFS_MAGIC_NUMBER)
           @ le_bytes 4 (unat UFS_INDEX_VERSION)"]
    by (simp add: W_def ex_world_mapped_def ex_world_def length_le_bytes sub_bytes_def
        le_val_le_bytes_u32)
  then obtain w' where c: "ufsHeaderValidate (Ptr 0) W = Inr (Ptr 0, w')"
    by blast
  with status_word_set_or_kept[where img = "Ptr 0" and w = W and r = "Ptr 0" and w' = w'] e
  show "\<exists>w'. ufsHeaderValidate (Ptr 0) W = Inr (Ptr 0, w') \<and> ufsErrno w' = UFS_BAD_CALL"
    by auto
next
  define W where "W = (ex_world_mapped (le_bytes 8 16 @ replicate 8 0))
                         \<lparr>ufsErrno := UFS_BAD_CALL\<rparr>"
  have e: "ufsErrno W = UFS_BAD_CALL" by (simp add: W_def)
  have "\<exists>w'. ufsImageFree (Ptr 0) W = Inr w'"
    using le_val_le_bytes[of 8 16]
    by (simp add: ufsImageFree_def W_def ex_world_mapped_def ex_world_def sys_munmap_def
        emit_def load_u64_def load_def img_file_def bindf_def length_le_bytes sub_bytes_def)
  then obtain w' where c: "ufsImageFree (Ptr 0) W = Inr w'"
    by blast
  with status_word_set_or_kept[where img = "Ptr 0" and w = W and w' = w'] e
  show "\<exists>w'. ufsImageFree (Ptr 0) W = Inr w' \<and> ufsErrno w' = UFS_BAD_CALL"
    by auto
qed

end
